theory Spec2Isabelle
  imports Main "HOL-Library.Sublist" "HOL-Library.AList"
begin

section \<open>JavaScript values\<close>

text \<open>
  The generator of \<^verbatim>\<open>src/code-generator/CodeGenerator.js\<close> reads the fields of
  event records that arrive as plain data. A field holds a JavaScript value: it may be
  absent (\<open>undefined\<close>), \<open>null\<close>, a boolean, a number, a string, or a size object
  \<open>{width, height}\<close> (\<open>JSize w h\<close>: an object whose own properties are at most \<open>width\<close>
  and \<open>height\<close>, a missing one being \<open>undefined\<close>). Numbers are the integers that a
  JavaScript number holds exactly and prints in decimal notation (what \<open>frameId\<close>,
  \<open>keyCode\<close>, \<open>width\<close> and \<open>height\<close> hold). Fractions, arrays, symbols and objects with
  other properties are outside the model.
\<close>

datatype jsval =
    JUndefined
  | JNull
  | JBool bool
  | JNum int
  | JStr string
  | JSize jsval jsval

datatype error = TypeError

abbreviation sq :: char where
  "sq \<equiv> CHR 0x27"

abbreviation nl :: string where
  "nl \<equiv> [CHR 0x0A]"

text \<open>Truthiness, as the conditions \<open>if (x)\<close> and \<open>x && y\<close> read it.\<close>

fun truthy :: "jsval \<Rightarrow> bool" where
  "truthy JUndefined = False"
| "truthy JNull = False"
| "truthy (JBool b) = b"
| "truthy (JNum n) = (n \<noteq> 0)"
| "truthy (JStr s) = (s \<noteq> [])"
| "truthy (JSize w h) = True"

definition digit_char :: "nat \<Rightarrow> char" where
  "digit_char d = ''0123456789'' ! d"

fun digits :: "nat \<Rightarrow> string" where
  "digits n = (if n < 10 then [digit_char n] else digits (n div 10) @ [digit_char (n mod 10)])"

declare digits.simps [simp del]

text \<open>
  The string a value turns into inside a template literal, under \<open>.toString()\<close> and as a
  property key (the three agree on the values modelled).
\<close>

fun toString :: "jsval \<Rightarrow> string" where
  "toString JUndefined = ''undefined''"
| "toString JNull = ''null''"
| "toString (JBool b) = (if b then ''true'' else ''false'')"
| "toString (JNum n) = (if n < 0 then CHR ''-'' # digits (nat (- n)) else digits (nat n))"
| "toString (JStr s) = s"
| "toString (JSize w h) = ''[object Object]''"

text \<open>
  Property access \<open>v.k\<close>: a TypeError on \<open>undefined\<close> and \<open>null\<close>, the stored value on a
  size object, \<open>undefined\<close> where the property is missing and on the other primitives
  (none of them has a property called \<open>width\<close> or \<open>height\<close>, the only names read this
  way).
\<close>

fun get_prop :: "jsval \<Rightarrow> string \<Rightarrow> error + jsval" where
  "get_prop JUndefined k = Inl TypeError"
| "get_prop JNull k = Inl TypeError"
| "get_prop (JSize w h) k =
     Inr (if k = ''width'' then w else if k = ''height'' then h else JUndefined)"
| "get_prop v k = Inr JUndefined"

text \<open>\<open>s.replace(pat, rep)\<close> with a string pattern: the first occurrence only.\<close>

fun replace_first :: "string \<Rightarrow> string \<Rightarrow> string \<Rightarrow> string" where
  "replace_first pat rep [] = (if pat = [] then rep else [])"
| "replace_first pat rep (c # cs) =
     (if prefix pat (c # cs) then rep @ drop (length pat) (c # cs)
      else c # replace_first pat rep cs)"

section \<open>Data model\<close>

text \<open>
  An event record, with the nine fields that \<open>_parseEvents\<close> destructures
  (\<open>evalue\<close> is the field \<open>value\<close>).
\<close>

record event =
  action :: jsval
  selector :: jsval
  evalue :: jsval
  href :: jsval
  keyCode :: jsval
  tagName :: jsval
  frameId :: jsval
  frameUrl :: jsval
  comments :: jsval

text \<open>
  Modelled from the spec: the constants of \<^verbatim>\<open>dom-events-to-record\<close> and
  \<^verbatim>\<open>pptr-actions\<close>, which the generator only stores in the \<open>type\<close> of a line. The
  spec calls them semantic tags; they stay symbolic here and no result depends on two of
  them being different.
\<close>

datatype tag =
    CLICK | KEYDOWN | CHANGE
  | GOTO | VIEWPORT | NAVIGATION | NAVIGATION_PROMISE | FRAME_SET

record line =
  line_type :: "tag option"
  line_value :: string
  line_frameId :: jsval

record block =
  block_frameId :: jsval
  block_lines :: "line list"

text \<open>
  Modelled from the spec: the class \<^verbatim>\<open>Block\<close> (imported from \<^verbatim>\<open>./Block\<close>). The
  spec describes a block as an ordered sequence of lines that is associated with a
  \<open>frameId\<close> at construction, supports insertion at head or tail, and whose frame
  affinity the frame-declaration pass reads from its lines (\<open>line.frameId\<close> in
  \<open>_postProcessSetFrames\<close>): every line that enters a block is stamped with the
  block's \<open>frameId\<close>.
\<close>

definition raw_line :: "tag option \<Rightarrow> string \<Rightarrow> line" where
  "raw_line t v = \<lparr>line_type = t, line_value = v, line_frameId = JUndefined\<rparr>"

definition addLine :: "line \<Rightarrow> block \<Rightarrow> block" where
  "addLine l b = b\<lparr>block_lines := block_lines b @ [l\<lparr>line_frameId := block_frameId b\<rparr>]\<rparr>"

definition addLineToTop :: "line \<Rightarrow> block \<Rightarrow> block" where
  "addLineToTop l b = b\<lparr>block_lines := l\<lparr>line_frameId := block_frameId b\<rparr> # block_lines b\<rparr>"

definition new_Block :: "jsval \<Rightarrow> line option \<Rightarrow> block" where
  "new_Block fid lo =
     (case lo of
        None \<Rightarrow> \<lparr>block_frameId = fid, block_lines = []\<rparr>
      | Some l \<Rightarrow> addLine l \<lparr>block_frameId = fid, block_lines = []\<rparr>)"

definition getLines :: "block \<Rightarrow> line list" where
  "getLines b = block_lines b"

text \<open>The options object, with the fields of \<open>defaults\<close>.\<close>

record options =
  wrapAsync :: bool
  headless :: bool
  waitForNavigation :: bool
  waitForSelectorOnClick :: bool
  blankLinesBetweenBlocks :: bool
  dataAttribute :: string
  useRegexForDataAttribute :: bool
  customLineAfterClick :: string

text \<open>
  What a caller passes to the constructor: any subset of the options
  (\<open>None\<close>: the property is not set on the caller's object).
\<close>

record given_options =
  g_wrapAsync :: "bool option"
  g_headless :: "bool option"
  g_waitForNavigation :: "bool option"
  g_waitForSelectorOnClick :: "bool option"
  g_blankLinesBetweenBlocks :: "bool option"
  g_dataAttribute :: "string option"
  g_useRegexForDataAttribute :: "bool option"
  g_customLineAfterClick :: "string option"

text \<open>
  The fields of a generator instance. \<open>this._options\<close> is not among them: the
  constructor sets it to the result of \<open>Object.assign(defaults, options)\<close>, which is the
  module-level object \<open>defaults\<close> itself, so the functions below take the present
  contents of that object as their argument \<open>opts\<close>.
\<close>

record codegen =
  this_blocks :: "block list"
  this_frame :: string
  this_frameId :: jsval
  this_allFrames :: "(string \<times> jsval) list"
  this_hasNavigation :: bool

section \<open>Program text constants\<close>

definition importPuppeteer :: string where
  "importPuppeteer = ''const puppeteer = require('' @ [sq] @ ''puppeteer'' @ [sq] @ '');'' @ nl"

definition header :: string where
  "header = ''const browser = await puppeteer.launch()'' @ nl @
            ''const page = await browser.newPage()''"

definition footer :: string where
  "footer = ''await browser.close()''"

definition wrappedHeader :: string where
  "wrappedHeader = ''(async () => {'' @ nl @
                   ''  const browser = await puppeteer.launch()'' @ nl @
                   ''  const page = await browser.newPage()'' @ nl"

definition wrappedFooter :: string where
  "wrappedFooter = ''  await browser.close()'' @ nl @ ''})()''"

definition defaults :: options where
  "defaults = \<lparr>wrapAsync = True, headless = True, waitForNavigation = True,
               waitForSelectorOnClick = True, blankLinesBetweenBlocks = True,
               dataAttribute = [], useRegexForDataAttribute = False,
               customLineAfterClick = []\<rparr>"

section \<open>The constructor\<close>

text \<open>\<open>Object.assign(target, source)\<close>: every property set on the source overwrites the target's.\<close>

definition assign :: "options \<Rightarrow> given_options \<Rightarrow> options" where
  "assign d g =
     \<lparr>wrapAsync = (case g_wrapAsync g of None \<Rightarrow> wrapAsync d | Some v \<Rightarrow> v),
      headless = (case g_headless g of None \<Rightarrow> headless d | Some v \<Rightarrow> v),
      waitForNavigation = (case g_waitForNavigation g of None \<Rightarrow> waitForNavigation d | Some v \<Rightarrow> v),
      waitForSelectorOnClick =
        (case g_waitForSelectorOnClick g of None \<Rightarrow> waitForSelectorOnClick d | Some v \<Rightarrow> v),
      blankLinesBetweenBlocks =
        (case g_blankLinesBetweenBlocks g of None \<Rightarrow> blankLinesBetweenBlocks d | Some v \<Rightarrow> v),
      dataAttribute = (case g_dataAttribute g of None \<Rightarrow> dataAttribute d | Some v \<Rightarrow> v),
      useRegexForDataAttribute =
        (case g_useRegexForDataAttribute g of None \<Rightarrow> useRegexForDataAttribute d | Some v \<Rightarrow> v),
      customLineAfterClick =
        (case g_customLineAfterClick g of None \<Rightarrow> customLineAfterClick d | Some v \<Rightarrow> v)\<rparr>"

text \<open>The fields of an instance as the constructor sets them.\<close>

definition fresh :: codegen where
  "fresh = \<lparr>this_blocks = [], this_frame = ''page'', this_frameId = JNum 0,
            this_allFrames = [], this_hasNavigation = False\<rparr>"

text \<open>
  \<open>new CodeGenerator(options)\<close>. The first argument is the module-level object
  \<open>defaults\<close> as it is when the constructor runs; the first component of the result is
  that object afterwards (\<open>Object.assign\<close> writes into its first argument), the second
  the new instance.
\<close>

definition new_CodeGenerator :: "options \<Rightarrow> given_options \<Rightarrow> options \<times> codegen" where
  "new_CodeGenerator module_defaults given = (assign module_defaults given, fresh)"

section \<open>Frame tracking and the handlers\<close>

text \<open>
  The assignment \<open>obj[k] = v\<close> on a plain object, here \<open>_allFrames\<close>: it creates or
  overwrites the own property \<open>k\<close>. The one key that creates no own property is
  \<open>__proto__\<close>, an accessor that plain objects inherit. The order of the keys is never
  observed (the generator only asks whether a key is present and whether there is any).
\<close>

definition set_own :: "string \<Rightarrow> jsval \<Rightarrow> (string \<times> jsval) list \<Rightarrow> (string \<times> jsval) list" where
  "set_own k v m = (if k = ''__proto__'' then m else AList.update k v m)"

definition setFrames :: "jsval \<Rightarrow> jsval \<Rightarrow> codegen \<Rightarrow> codegen" where
  "setFrames fid furl this =
     (if truthy fid \<and> fid \<noteq> JNum 0
      then this\<lparr>this_frameId := fid,
                this_frame := ''frame_'' @ toString fid,
                this_allFrames := set_own (toString fid) furl (this_allFrames this)\<rparr>
      else this\<lparr>this_frameId := JNum 0, this_frame := ''page''\<rparr>)"

definition handleComments :: "block \<Rightarrow> jsval \<Rightarrow> block" where
  "handleComments b c =
     (if truthy c then addLineToTop (raw_line None (''/** '' @ toString c @ '' */'')) b else b)"

definition handleSubmit :: "codegen \<Rightarrow> jsval \<Rightarrow> jsval \<Rightarrow> block" where
  "handleSubmit this sel v =
     new_Block (this_frameId this)
       (Some (raw_line (Some CHANGE)
          (''await '' @ this_frame this @ ''.$eval('' @ [sq] @ toString sel @ [sq] @
           '', form => form.submit())'')))"

definition handleKeyDown :: "codegen \<Rightarrow> jsval \<Rightarrow> jsval \<Rightarrow> jsval \<Rightarrow> block" where
  "handleKeyDown this sel v kc =
     addLine (raw_line (Some KEYDOWN)
        (''await '' @ this_frame this @ ''.type('' @ [sq] @ toString sel @ [sq] @ '', '' @
         [sq] @ toString v @ [sq] @ '')''))
       (new_Block (this_frameId this) None)"

definition handleClick :: "options \<Rightarrow> codegen \<Rightarrow> jsval \<Rightarrow> block" where
  "handleClick opts this sel =
     (let b0 = new_Block (this_frameId this) None;
          b1 = (if waitForSelectorOnClick opts
                then addLine (raw_line (Some CLICK)
                       (''await '' @ this_frame this @ ''.waitForSelector('' @ [sq] @
                        toString sel @ [sq] @ '')'')) b0
                else b0);
          b2 = addLine (raw_line (Some CLICK)
                 (''await '' @ this_frame this @ ''.click('' @ [sq] @ toString sel @ [sq] @
                  '')'')) b1
      in if customLineAfterClick opts \<noteq> []
         then addLine (raw_line (Some CLICK) (customLineAfterClick opts)) b2
         else b2)"

definition handleSelectChange :: "codegen \<Rightarrow> jsval \<Rightarrow> jsval \<Rightarrow> block" where
  "handleSelectChange this sel v =
     new_Block (this_frameId this)
       (Some (raw_line (Some CHANGE)
          (''await '' @ this_frame this @ ''.select('' @ [sq] @ toString sel @ [sq] @ '', '' @
           [sq] @ toString v @ [sq] @ '')'')))"

definition handleChange :: "codegen \<Rightarrow> jsval \<Rightarrow> jsval \<Rightarrow> block" where
  "handleChange this sel v =
     new_Block (this_frameId this)
       (Some (raw_line (Some CHANGE)
          (''await '' @ this_frame this @ ''.type('' @ [sq] @ toString sel @ [sq] @ '', '' @
           [sq] @ toString v @ [sq] @ '')'')))"

definition handleGoto :: "codegen \<Rightarrow> jsval \<Rightarrow> block" where
  "handleGoto this h =
     new_Block (this_frameId this)
       (Some (raw_line (Some GOTO)
          (''await '' @ this_frame this @ ''.goto('' @ [sq] @ toString h @ [sq] @ '')'')))"

definition handleViewport :: "codegen \<Rightarrow> jsval \<Rightarrow> jsval \<Rightarrow> block" where
  "handleViewport this w h =
     new_Block (this_frameId this)
       (Some (raw_line (Some VIEWPORT)
          (''await '' @ this_frame this @ ''.setViewport({ width: '' @ toString w @
           '', height: '' @ toString h @ '' })'')))"

definition handleWaitForNavigation :: "options \<Rightarrow> codegen \<Rightarrow> block" where
  "handleWaitForNavigation opts this =
     (let b = new_Block (this_frameId this) None
      in if waitForNavigation opts
         then addLine (raw_line (Some NAVIGATION) ''await navigationPromise'') b
         else b)"

section \<open>The event loop of \<open>_parseEvents\<close>\<close>

text \<open>
  The \<open>switch\<close> on \<open>action\<close> (strict equality with the seven case labels). The result
  is the value of \<open>newBlock\<close> (\<open>None\<close> for \<open>null\<close>) and the instance, on which the
  \<open>navigation*\<close> case sets \<open>_hasNavigation\<close>. Reading \<open>value.width\<close> raises when
  \<open>value\<close> is \<open>undefined\<close> or \<open>null\<close>.
\<close>

definition dispatch :: "options \<Rightarrow> event \<Rightarrow> codegen \<Rightarrow> error + (block option \<times> codegen)" where
  "dispatch opts e this =
     (if action e = JStr ''submit'' then
        Inr (if tagName e = JStr ''FORM''
             then Some (handleSubmit this (selector e) (evalue e)) else None, this)
      else if action e = JStr ''keydown'' then
        Inr (if keyCode e = JNum 9
             then Some (handleKeyDown this (selector e) (evalue e) (keyCode e)) else None, this)
      else if action e = JStr ''click'' then
        Inr (Some (handleClick opts this (selector e)), this)
      else if action e = JStr ''change'' then
        Inr (if tagName e = JStr ''SELECT''
             then Some (handleSelectChange this (selector e) (evalue e))
             else Some (handleChange this (selector e) (evalue e)), this)
      else if action e = JStr ''goto*'' then
        Inr (Some (handleGoto this (href e)), this)
      else if action e = JStr ''viewport*'' then
        (case get_prop (evalue e) ''width'' of
           Inl err \<Rightarrow> Inl err
         | Inr w \<Rightarrow>
             (case get_prop (evalue e) ''height'' of
                Inl err \<Rightarrow> Inl err
              | Inr h \<Rightarrow> Inr (Some (handleViewport this w h), this)))
      else if action e = JStr ''navigation*'' then
        Inr (Some (handleWaitForNavigation opts this), this\<lparr>this_hasNavigation := True\<rparr>)
      else Inr (None, this))"

text \<open>One iteration of the \<open>for\<close> loop over the events.\<close>

definition parseEvent :: "options \<Rightarrow> event \<Rightarrow> codegen \<Rightarrow> error + codegen" where
  "parseEvent opts e this =
     (case dispatch opts e (setFrames (frameId e) (frameUrl e) this) of
        Inl err \<Rightarrow> Inl err
      | Inr (None, this') \<Rightarrow> Inr this'
      | Inr (Some b, this') \<Rightarrow>
          Inr (this'\<lparr>this_blocks := this_blocks this' @ [handleComments b (comments e)]\<rparr>))"

fun parseLoop :: "options \<Rightarrow> event list \<Rightarrow> codegen \<Rightarrow> error + codegen" where
  "parseLoop opts [] this = Inr this"
| "parseLoop opts (e # es) this =
     (case parseEvent opts e this of
        Inl err \<Rightarrow> Inl err
      | Inr this' \<Rightarrow> parseLoop opts es this')"

text \<open>The declaration of the navigation promise, put in front once the loop is over.\<close>

definition navigationPromiseBlock :: "jsval \<Rightarrow> block" where
  "navigationPromiseBlock fid =
     new_Block fid
       (Some (raw_line (Some NAVIGATION_PROMISE)
          ''const navigationPromise = page.waitForNavigation()''))"

definition hoistNavigation :: "options \<Rightarrow> codegen \<Rightarrow> codegen" where
  "hoistNavigation opts this =
     (if this_hasNavigation this \<and> waitForNavigation opts
      then this\<lparr>this_blocks := navigationPromiseBlock (this_frameId this) # this_blocks this\<rparr>
      else this)"

section \<open>Post-processing\<close>

text \<open>
  The inner loop of \<open>_postProcessSetFrames\<close>: the first line of a block whose
  \<open>frameId\<close> is truthy and whose key is among the keys of \<open>_allFrames\<close>.
\<close>

fun find_pending :: "(string \<times> jsval) list \<Rightarrow> line list \<Rightarrow> line option" where
  "find_pending m [] = None"
| "find_pending m (l # ls) =
     (if truthy (line_frameId l) \<and> toString (line_frameId l) \<in> set (map fst m)
      then Some l else find_pending m ls)"

definition frames_line :: line where
  "frames_line = raw_line (Some FRAME_SET) ''let frames = await page.frames()''"

definition declaration_line :: "(string \<times> jsval) list \<Rightarrow> jsval \<Rightarrow> line" where
  "declaration_line m fid =
     raw_line (Some FRAME_SET)
       (''const frame_'' @ toString fid @ '' = frames.find(f => f.url() === '' @ [sq] @
        toString (case map_of m (toString fid) of None \<Rightarrow> JUndefined | Some u \<Rightarrow> u) @
        [sq] @ '')'')"

text \<open>
  The outer loop: the blocks in list order, the pending map threaded through. The result
  is the new block list and what is left of \<open>_allFrames\<close>.
\<close>

fun postProcessSetFrames ::
  "(string \<times> jsval) list \<Rightarrow> block list \<Rightarrow> block list \<times> (string \<times> jsval) list" where
  "postProcessSetFrames m [] = ([], m)"
| "postProcessSetFrames m (b # bs) =
     (case find_pending m (getLines b) of
        None \<Rightarrow>
          (case postProcessSetFrames m bs of (bs', m') \<Rightarrow> (b # bs', m'))
      | Some l \<Rightarrow>
          (case postProcessSetFrames (AList.delete (toString (line_frameId l)) m) bs of
             (bs', m') \<Rightarrow>
               (addLineToTop frames_line
                  (addLineToTop (declaration_line m (line_frameId l)) b) # bs', m')))"

definition blankLine :: block where
  "blankLine = addLine (raw_line None []) (new_Block JUndefined None)"

text \<open>\<open>xs.splice(i, 0, x)\<close>; a start beyond the end is clamped to the end.\<close>

definition splice_in :: "nat \<Rightarrow> 'a \<Rightarrow> 'a list \<Rightarrow> 'a list" where
  "splice_in i x xs = take i xs @ x # drop i xs"

text \<open>The \<open>while\<close> loop of \<open>_postProcessAddBlankLines\<close>, started at \<open>i = 0\<close>.\<close>

function addBlankLines :: "nat \<Rightarrow> block list \<Rightarrow> block list" where
  "addBlankLines i bs =
     (if i \<le> length bs then addBlankLines (i + 2) (splice_in i blankLine bs) else bs)"
  by pat_completeness auto
termination
  by (relation "measure (\<lambda>(i, bs). Suc (length bs) - i)") (auto simp: splice_in_def)

declare addBlankLines.simps [simp del]

definition postProcessAddBlankLines :: "block list \<Rightarrow> block list" where
  "postProcessAddBlankLines bs = addBlankLines 0 bs"

definition postProcess :: "options \<Rightarrow> codegen \<Rightarrow> codegen" where
  "postProcess opts this =
     (let this1 =
            (if this_allFrames this \<noteq> []
             then (case postProcessSetFrames (this_allFrames this) (this_blocks this) of
                     (bs, m) \<Rightarrow> this\<lparr>this_blocks := bs, this_allFrames := m\<rparr>)
             else this)
      in if blankLinesBetweenBlocks opts \<and> this_blocks this1 \<noteq> []
         then this1\<lparr>this_blocks := postProcessAddBlankLines (this_blocks this1)\<rparr>
         else this1)"

section \<open>Rendering\<close>

definition render :: "options \<Rightarrow> block list \<Rightarrow> string" where
  "render opts bs =
     concat (map (\<lambda>l. (if wrapAsync opts then ''  '' else []) @ line_value l @ nl)
                 (concat (map getLines bs)))"

text \<open>
  \<open>_parseEvents\<close>: the loop, the hoist, the post-processing, the text. The instance is
  returned with the text, since the call leaves its blocks and frames on it.
\<close>

definition parseEvents :: "options \<Rightarrow> codegen \<Rightarrow> event list \<Rightarrow> error + (string \<times> codegen)" where
  "parseEvents opts this events =
     (case parseLoop opts events this of
        Inl err \<Rightarrow> Inl err
      | Inr this1 \<Rightarrow>
          (let this2 = postProcess opts (hoistNavigation opts this1)
           in Inr (render opts (this_blocks this2), this2)))"

definition getHeader :: "options \<Rightarrow> string" where
  "getHeader opts =
     (let hdr = (if wrapAsync opts then wrappedHeader else header)
      in if headless opts then hdr
         else replace_first ''launch()'' ''launch({ headless: false })'' hdr)"

definition getFooter :: "options \<Rightarrow> string" where
  "getFooter opts = (if wrapAsync opts then wrappedFooter else footer)"

definition generate :: "options \<Rightarrow> codegen \<Rightarrow> event list \<Rightarrow> error + string" where
  "generate opts this events =
     (case parseEvents opts this events of
        Inl err \<Rightarrow> Inl err
      | Inr (body, this') \<Rightarrow> Inr (importPuppeteer @ getHeader opts @ body @ getFooter opts))"

section \<open>Notions used to state the properties\<close>

text \<open>
  The block that one event yields: the handlers read only the frame variable and the
  frame id, which \<open>_setFrames\<close> has just set from the event itself, so the block does not
  depend on the events before it.
\<close>

definition event_block :: "options \<Rightarrow> event \<Rightarrow> block option" where
  "event_block opts e =
     (case dispatch opts e (setFrames (frameId e) (frameUrl e) fresh) of
        Inl err \<Rightarrow> None
      | Inr (nb, this') \<Rightarrow> map_option (\<lambda>b. handleComments b (comments e)) nb)"

text \<open>The condition of \<open>_setFrames\<close>, and the events on which the switch raises.\<close>

definition sets_frame :: "event \<Rightarrow> bool" where
  "sets_frame e = (truthy (frameId e) \<and> frameId e \<noteq> JNum 0)"

definition raises :: "event \<Rightarrow> bool" where
  "raises e = (action e = JStr ''viewport*'' \<and> (evalue e = JUndefined \<or> evalue e = JNull))"

text \<open>
  Every line of a block carries the block's \<open>frameId\<close> (what the methods of
  \<open>Block\<close> maintain). A block refers to a frame when it has a line and its \<open>frameId\<close>
  is truthy; the key of the frame is the string of the \<open>frameId\<close>.
\<close>

definition block_wf :: "block \<Rightarrow> bool" where
  "block_wf b = (\<forall>l\<in>set (block_lines b). line_frameId l = block_frameId b)"

definition references :: "block \<Rightarrow> bool" where
  "references b = (block_lines b \<noteq> [] \<and> truthy (block_frameId b))"

definition frame_key :: "block \<Rightarrow> string" where
  "frame_key b = toString (block_frameId b)"

text \<open>
  Block \<open>i\<close> is the first use of a frame of the map \<open>m\<close>: it refers to a frame whose
  key is in \<open>m\<close>, and no earlier block refers to a frame with that key. A declared block
  is the block with the two declaration lines in front.
\<close>

definition first_use :: "(string \<times> jsval) list \<Rightarrow> block list \<Rightarrow> nat \<Rightarrow> bool" where
  "first_use m bs i =
     (i < length bs \<and> references (bs ! i) \<and> frame_key (bs ! i) \<in> fst ` set m \<and>
      (\<forall>j<i. references (bs ! j) \<longrightarrow> frame_key (bs ! j) \<noteq> frame_key (bs ! i)))"

definition declared :: "(string \<times> jsval) list \<Rightarrow> block \<Rightarrow> block" where
  "declared m b =
     b\<lparr>block_lines :=
         [frames_line\<lparr>line_frameId := block_frameId b\<rparr>,
          (declaration_line m (block_frameId b))\<lparr>line_frameId := block_frameId b\<rparr>] @
         block_lines b\<rparr>"

text \<open>The events for which the switch sets \<open>newBlock\<close> to a block.\<close>

definition returns_block :: "event \<Rightarrow> bool" where
  "returns_block e =
     (action e = JStr ''submit'' \<and> tagName e = JStr ''FORM'' \<or>
      action e = JStr ''keydown'' \<and> keyCode e = JNum 9 \<or>
      action e = JStr ''click'' \<or> action e = JStr ''change'' \<or>
      action e = JStr ''goto*'' \<or> action e = JStr ''viewport*'' \<or>
      action e = JStr ''navigation*'')"

text \<open>
  The frame id after the last event, and the declaration block that is put in front of
  the list (none or one).
\<close>

definition frame_after :: "event list \<Rightarrow> jsval" where
  "frame_after events =
     (if events = [] then JNum 0
      else if sets_frame (last events) then frameId (last events) else JNum 0)"

definition declaration_blocks :: "options \<Rightarrow> event list \<Rightarrow> block list" where
  "declaration_blocks opts events =
     (if (\<exists>e\<in>set events. action e = JStr ''navigation*'') \<and> waitForNavigation opts
      then [navigationPromiseBlock (frame_after events)] else [])"

text \<open>\<open>b'\<close> is \<open>b\<close> with further lines in front.\<close>

definition extends :: "block \<Rightarrow> block \<Rightarrow> bool" where
  "extends b' b = (\<exists>d. b' = b\<lparr>block_lines := d @ block_lines b\<rparr>)"

text \<open>The empty options object, and an event with an action and no other field.\<close>

definition no_options :: given_options where
  "no_options = \<lparr>g_wrapAsync = None, g_headless = None, g_waitForNavigation = None,
                  g_waitForSelectorOnClick = None, g_blankLinesBetweenBlocks = None,
                  g_dataAttribute = None, g_useRegexForDataAttribute = None,
                  g_customLineAfterClick = None\<rparr>"

definition event_of :: "string \<Rightarrow> event" where
  "event_of a = \<lparr>action = JStr a, selector = JUndefined, evalue = JUndefined,
                  href = JUndefined, keyCode = JUndefined, tagName = JUndefined,
                  frameId = JUndefined, frameUrl = JUndefined, comments = JUndefined\<rparr>"

text \<open>
  An action that is none of the seven case labels; a \<open>submit\<close> or \<open>keydown\<close> whose
  guard fails.
\<close>

definition unrecognized :: "event \<Rightarrow> bool" where
  "unrecognized e =
     (action e \<notin> {JStr ''submit'', JStr ''keydown'', JStr ''click'', JStr ''change'',
                   JStr ''goto*'', JStr ''viewport*'', JStr ''navigation*''})"

definition guard_fails :: "event \<Rightarrow> bool" where
  "guard_fails e =
     (action e = JStr ''submit'' \<and> tagName e \<noteq> JStr ''FORM'' \<or>
      action e = JStr ''keydown'' \<and> keyCode e \<noteq> JNum 9)"


text \<open>Four clicks, from the frames 0, 3, 3 and 5.\<close>

definition events_0_3_3_5 :: "event list" where
  "events_0_3_3_5 =
     [(event_of ''click'')\<lparr>selector := JStr ''#a'', frameId := JNum 0,
                            frameUrl := JStr ''https://top.example/''\<rparr>,
      (event_of ''click'')\<lparr>selector := JStr ''#b'', frameId := JNum 3,
                            frameUrl := JStr ''https://three.example/''\<rparr>,
      (event_of ''click'')\<lparr>selector := JStr ''#c'', frameId := JNum 3,
                            frameUrl := JStr ''https://three.example/''\<rparr>,
      (event_of ''click'')\<lparr>selector := JStr ''#d'', frameId := JNum 5,
                            frameUrl := JStr ''https://five.example/''\<rparr>]"

section \<open>The event loop, event by event\<close>

lemma error_eq: "(a :: error) = b"
  by (cases a; cases b) simp

lemma get_prop_Inl: "get_prop v k = Inl err \<longleftrightarrow> (v = JUndefined \<or> v = JNull)"
  by (cases v) (auto intro: error_eq)

lemma get_prop_ok: "v \<noteq> JUndefined \<Longrightarrow> v \<noteq> JNull \<Longrightarrow> \<exists>w. get_prop v k = Inr w"
  by (cases v) auto

lemma dispatch_Inl: "dispatch opts e this = Inl err \<longleftrightarrow> raises e"
  unfolding dispatch_def raises_def
  by (auto simp: get_prop_Inl intro: error_eq split: sum.splits)

lemma dispatch_state:
  "dispatch opts e this = Inr (nb, this') \<Longrightarrow>
   this' = this\<lparr>this_hasNavigation := this_hasNavigation this \<or> action e = JStr ''navigation*''\<rparr>"
  unfolding dispatch_def
  by (auto split: if_splits sum.splits)

lemma dispatch_frame_only:
  "this_frame a = f \<Longrightarrow> this_frame b = f \<Longrightarrow> this_frameId a = i \<Longrightarrow> this_frameId b = i \<Longrightarrow>
   dispatch opts e a = Inr (nb, a') \<Longrightarrow> \<exists>b'. dispatch opts e b = Inr (nb, b')"
  unfolding dispatch_def
  by (auto simp: handleSubmit_def handleKeyDown_def handleClick_def handleSelectChange_def
      handleChange_def handleGoto_def handleViewport_def handleWaitForNavigation_def Let_def
      split: if_splits sum.splits)

lemma setFrames_simps:
  "this_blocks (setFrames f u x) = this_blocks x"
  "this_hasNavigation (setFrames f u x) = this_hasNavigation x"
  "this_frameId (setFrames f u x) = (if truthy f \<and> f \<noteq> JNum 0 then f else JNum 0)"
  "this_frame (setFrames f u x) = (if truthy f \<and> f \<noteq> JNum 0 then ''frame_'' @ toString f else ''page'')"
  "this_allFrames (setFrames f u x) =
     (if truthy f \<and> f \<noteq> JNum 0 then set_own (toString f) u (this_allFrames x) else this_allFrames x)"
  by (simp_all add: setFrames_def)

lemma parseEvent_Inl: "parseEvent opts e this = Inl err \<longleftrightarrow> raises e"
proof (cases "dispatch opts e (setFrames (frameId e) (frameUrl e) this)")
  case (Inl a)
  then show ?thesis
    using dispatch_Inl [of opts e "setFrames (frameId e) (frameUrl e) this" a]
    by (auto simp: parseEvent_def intro: error_eq)
next
  case (Inr p)
  then show ?thesis
    using dispatch_Inl [of opts e "setFrames (frameId e) (frameUrl e) this" err]
    by (auto simp: parseEvent_def split: option.splits prod.splits)
qed

lemma parseEvent_Inr:
  assumes "parseEvent opts e this = Inr this'"
  shows "this' = (setFrames (frameId e) (frameUrl e) this)
           \<lparr>this_hasNavigation := this_hasNavigation this \<or> action e = JStr ''navigation*'',
            this_blocks := this_blocks this @ (case event_block opts e of None \<Rightarrow> [] | Some b \<Rightarrow> [b])\<rparr>"
proof -
  let ?s = "setFrames (frameId e) (frameUrl e) this"
  let ?t = "setFrames (frameId e) (frameUrl e) fresh"
  from assms obtain nb s' where d: "dispatch opts e ?s = Inr (nb, s')"
    unfolding parseEvent_def by (auto split: sum.splits)
  from dispatch_state [OF d]
  have s': "s' = ?s\<lparr>this_hasNavigation := this_hasNavigation ?s \<or> action e = JStr ''navigation*''\<rparr>" .
  from dispatch_frame_only [OF _ _ _ _ d, where b = ?t]
  obtain t' where "dispatch opts e ?t = Inr (nb, t')"
    by (auto simp: setFrames_simps)
  then have eb: "event_block opts e = map_option (\<lambda>b. handleComments b (comments e)) nb"
    by (simp add: event_block_def)
  show ?thesis
    using assms d s' eb unfolding parseEvent_def
    by (cases nb) (auto simp: setFrames_simps)
qed

lemma parseLoop_append:
  "parseLoop opts (es @ fs) this =
     (case parseLoop opts es this of Inl err \<Rightarrow> Inl err | Inr s \<Rightarrow> parseLoop opts fs s)"
  by (induction es arbitrary: this) (auto split: sum.splits)

lemma parseLoop_Inl: "parseLoop opts es this = Inl err \<longleftrightarrow> (\<exists>e\<in>set es. raises e)"
proof (induction es arbitrary: this)
  case Nil
  then show ?case by simp
next
  case (Cons e es)
  show ?case
  proof (cases "parseEvent opts e this")
    case (Inl a)
    then show ?thesis using parseEvent_Inl [of opts e this a] by (auto intro: error_eq)
  next
    case (Inr s)
    then have "\<not> raises e" using parseEvent_Inl [of opts e this err] by auto
    then show ?thesis using Inr Cons.IH [of s] by simp
  qed
qed

lemma parseLoop_blocks:
  "parseLoop opts es this = Inr this' \<Longrightarrow>
   this_blocks this' = this_blocks this @ List.map_filter (event_block opts) es"
proof (induction es arbitrary: this)
  case Nil
  then show ?case by (simp add: List.map_filter_simps)
next
  case (Cons e es)
  then obtain s where s: "parseEvent opts e this = Inr s" and r: "parseLoop opts es s = Inr this'"
    by (auto split: sum.splits)
  from parseEvent_Inr [OF s]
  have "this_blocks s = this_blocks this @ (case event_block opts e of None \<Rightarrow> [] | Some b \<Rightarrow> [b])"
    by simp
  with Cons.IH [OF r] show ?case
    by (simp add: List.map_filter_simps split: option.splits)
qed

lemma parseLoop_hasNavigation:
  "parseLoop opts es this = Inr this' \<Longrightarrow>
   this_hasNavigation this' = (this_hasNavigation this \<or> (\<exists>e\<in>set es. action e = JStr ''navigation*''))"
proof (induction es arbitrary: this)
  case Nil
  then show ?case by simp
next
  case (Cons e es)
  then obtain s where s: "parseEvent opts e this = Inr s" and r: "parseLoop opts es s = Inr this'"
    by (auto split: sum.splits)
  from parseEvent_Inr [OF s]
  have "this_hasNavigation s = (this_hasNavigation this \<or> action e = JStr ''navigation*'')"
    by simp
  with Cons.IH [OF r] show ?case
    by auto
qed

section \<open>The blank-line pass\<close>

lemma addBlankLines_interleave:
  "addBlankLines (length pre) (pre @ rest) =
     pre @ blankLine # concat (map (\<lambda>b. [b, blankLine]) rest)"
proof (induction rest arbitrary: pre)
  case Nil
  have "addBlankLines (length pre) pre = addBlankLines (length pre + 2) (pre @ [blankLine])"
    by (subst addBlankLines.simps) (simp add: splice_in_def)
  also have "\<dots> = pre @ [blankLine]"
    by (subst addBlankLines.simps) simp
  finally show ?case by simp
next
  case (Cons b rest)
  have "addBlankLines (length pre) (pre @ b # rest) =
        addBlankLines (length (pre @ [blankLine, b])) ((pre @ [blankLine, b]) @ rest)"
    by (subst addBlankLines.simps) (simp add: splice_in_def)
  also have "\<dots> = (pre @ [blankLine, b]) @ blankLine # concat (map (\<lambda>b. [b, blankLine]) rest)"
    by (rule Cons.IH)
  finally show ?case by simp
qed

lemma postProcessAddBlankLines_eq:
  "postProcessAddBlankLines bs = blankLine # concat (map (\<lambda>b. [b, blankLine]) bs)"
  using addBlankLines_interleave [of "[]" bs] by (simp add: postProcessAddBlankLines_def)

section \<open>The frame pass\<close>

lemma find_pending_same:
  "\<forall>l\<in>set ls. line_frameId l = f \<Longrightarrow>
   find_pending m ls =
     (if ls \<noteq> [] \<and> truthy f \<and> toString f \<in> fst ` set m then Some (hd ls) else None)"
  by (induction ls) auto

lemma find_pending_wf:
  assumes "block_wf b"
  shows "find_pending m (getLines b) =
     (if references b \<and> frame_key b \<in> fst ` set m then Some (hd (block_lines b)) else None)"
  using assms find_pending_same [of "block_lines b" "block_frameId b" m]
  by (simp add: block_wf_def references_def frame_key_def getLines_def)

lemma first_use_0:
  "first_use m (b # bs) 0 \<longleftrightarrow> references b \<and> frame_key b \<in> fst ` set m"
  by (simp add: first_use_def)

lemma first_use_Suc:
  "first_use m (b # bs) (Suc i) \<longleftrightarrow>
     i < length bs \<and> references (bs ! i) \<and> frame_key (bs ! i) \<in> fst ` set m \<and>
     (references b \<longrightarrow> frame_key b \<noteq> frame_key (bs ! i)) \<and>
     (\<forall>j<i. references (bs ! j) \<longrightarrow> frame_key (bs ! j) \<noteq> frame_key (bs ! i))"
  unfolding first_use_def
  by (auto simp: less_Suc_eq_0_disj)

lemma keys_delete: "fst ` set (AList.delete k m) = fst ` set m - {k}"
  by (force simp: AList.delete_eq)

lemma first_use_skip:
  "\<not> (references b \<and> frame_key b \<in> fst ` set m) \<Longrightarrow>
   first_use m (b # bs) (Suc i) \<longleftrightarrow> first_use m bs i"
  using first_use_Suc [of m b bs i] unfolding first_use_def [of m bs i] by simp metis

lemma first_use_delete:
  "references b \<Longrightarrow>
   first_use m (b # bs) (Suc i) \<longleftrightarrow> first_use (AList.delete (frame_key b) m) bs i"
  using first_use_Suc [of m b bs i]
  unfolding first_use_def [of "AList.delete (frame_key b) m" bs i] keys_delete by simp metis

lemma declared_delete:
  "frame_key b \<noteq> k \<Longrightarrow> declared (AList.delete k m) b = declared m b"
  by (simp add: declared_def declaration_line_def frame_key_def AList.delete_conv')

lemma addLineToTop_declared:
  "block_wf b \<Longrightarrow> references b \<Longrightarrow>
   addLineToTop frames_line
     (addLineToTop (declaration_line m (line_frameId (hd (block_lines b)))) b) = declared m b"
  by (cases "block_lines b") (auto simp: addLineToTop_def declared_def block_wf_def references_def)

lemma postProcessSetFrames_nth:
  assumes "\<forall>b\<in>set bs. block_wf b"
  shows "length (fst (postProcessSetFrames m bs)) = length bs \<and>
         (\<forall>i<length bs. fst (postProcessSetFrames m bs) ! i =
            (if first_use m bs i then declared m (bs ! i) else bs ! i))"
  using assms
proof (induction bs arbitrary: m)
  case Nil
  then show ?case by simp
next
  case (Cons b bs)
  then have wf: "block_wf b" and wfs: "\<forall>b\<in>set bs. block_wf b" by simp_all
  show ?case
  proof (cases "references b \<and> frame_key b \<in> fst ` set m")
    case True
    let ?m' = "AList.delete (frame_key b) m"
    have fp: "find_pending m (getLines b) = Some (hd (block_lines b))"
      using True find_pending_wf [OF wf, of m] by simp
    have k: "toString (line_frameId (hd (block_lines b))) = frame_key b"
      using True wf by (cases "block_lines b") (auto simp: block_wf_def references_def frame_key_def)
    have eq: "fst (postProcessSetFrames m (b # bs)) = declared m b # fst (postProcessSetFrames ?m' bs)"
      using fp k addLineToTop_declared [OF wf, of m] True by (simp split: prod.splits)
    have "fst (postProcessSetFrames m (b # bs)) ! i =
            (if first_use m (b # bs) i then declared m ((b # bs) ! i) else (b # bs) ! i)"
      if "i < length (b # bs)" for i
    proof (cases i)
      case 0
      then show ?thesis using eq True by (simp add: first_use_0 del: postProcessSetFrames.simps)
    next
      case (Suc i')
      with that have lt: "i' < length bs" by simp
      have "first_use ?m' bs i' \<Longrightarrow> frame_key (bs ! i') \<noteq> frame_key b"
        by (simp add: first_use_def keys_delete)
      then show ?thesis
        using Suc eq lt True Cons.IH [OF wfs, of ?m'] first_use_delete [of b m bs i']
        by (auto simp: declared_delete simp del: postProcessSetFrames.simps)
    qed
    then show ?thesis using eq Cons.IH [OF wfs, of ?m'] by (simp del: postProcessSetFrames.simps)
  next
    case False
    have fp: "find_pending m (getLines b) = None"
      using False find_pending_wf [OF wf, of m] by simp
    have eq: "fst (postProcessSetFrames m (b # bs)) = b # fst (postProcessSetFrames m bs)"
      using fp by (simp split: prod.splits)
    have "fst (postProcessSetFrames m (b # bs)) ! i =
            (if first_use m (b # bs) i then declared m ((b # bs) ! i) else (b # bs) ! i)"
      if "i < length (b # bs)" for i
    proof (cases i)
      case 0
      then show ?thesis using eq False by (auto simp: first_use_0 simp del: postProcessSetFrames.simps)
    next
      case (Suc i')
      with that have lt: "i' < length bs" by simp
      then show ?thesis
        using Suc eq False Cons.IH [OF wfs, of m] first_use_skip [OF False, of bs i']
        by (auto simp del: postProcessSetFrames.simps)
    qed
    then show ?thesis using eq Cons.IH [OF wfs, of m] by (simp del: postProcessSetFrames.simps)
  qed
qed

lemmas handler_defs =
  handleSubmit_def handleKeyDown_def handleClick_def handleSelectChange_def handleChange_def
  handleGoto_def handleViewport_def handleWaitForNavigation_def handleComments_def
  new_Block_def addLine_def addLineToTop_def raw_line_def

lemma event_block_wf:
  assumes "event_block opts e = Some b"
  shows "block_frameId b = (if sets_frame e then frameId e else JNum 0) \<and> block_wf b"
  using assms unfolding event_block_def dispatch_def sets_frame_def block_wf_def
  by (auto simp: handler_defs setFrames_simps Let_def split: if_splits sum.splits)

lemma event_block_Some:
  "\<not> raises e \<Longrightarrow> (\<exists>b. event_block opts e = Some b) \<longleftrightarrow> returns_block e"
  unfolding event_block_def dispatch_def returns_block_def raises_def
  by (auto simp: get_prop_Inl split: if_splits sum.splits)

lemma postProcessSetFrames_pending:
  assumes "\<forall>b\<in>set bs. block_wf b"
  shows "map_of (snd (postProcessSetFrames m bs)) k =
           (if \<exists>i. first_use m bs i \<and> frame_key (bs ! i) = k then None else map_of m k)"
  using assms
proof (induction bs arbitrary: m)
  case Nil
  then show ?case by (simp add: first_use_def)
next
  case (Cons b bs)
  then have wf: "block_wf b" and wfs: "\<forall>b\<in>set bs. block_wf b" by simp_all
  have ex: "(\<exists>i. first_use m (b # bs) i \<and> frame_key ((b # bs) ! i) = k) \<longleftrightarrow>
            (first_use m (b # bs) 0 \<and> frame_key b = k) \<or>
            (\<exists>i. first_use m (b # bs) (Suc i) \<and> frame_key (bs ! i) = k)" (is "?L \<longleftrightarrow> ?R")
  proof
    assume ?L
    then obtain i where i: "first_use m (b # bs) i" "frame_key ((b # bs) ! i) = k" by blast
    then show ?R by (cases i) auto
  next
    assume ?R
    then show ?L
    proof
      assume "first_use m (b # bs) 0 \<and> frame_key b = k"
      then have "first_use m (b # bs) 0 \<and> frame_key ((b # bs) ! 0) = k" by simp
      then show ?L by blast
    next
      assume "\<exists>i. first_use m (b # bs) (Suc i) \<and> frame_key (bs ! i) = k"
      then obtain i where "first_use m (b # bs) (Suc i) \<and> frame_key ((b # bs) ! Suc i) = k" by auto
      then show ?L by blast
    qed
  qed
  show ?case
  proof (cases "references b \<and> frame_key b \<in> fst ` set m")
    case True
    let ?m' = "AList.delete (frame_key b) m"
    have fp: "find_pending m (getLines b) = Some (hd (block_lines b))"
      using True find_pending_wf [OF wf, of m] by simp
    have kb: "toString (line_frameId (hd (block_lines b))) = frame_key b"
      using True wf by (cases "block_lines b") (auto simp: block_wf_def references_def frame_key_def)
    have eq: "snd (postProcessSetFrames m (b # bs)) = snd (postProcessSetFrames ?m' bs)"
      using fp kb by (simp split: prod.splits)
    have "first_use ?m' bs i \<Longrightarrow> frame_key (bs ! i) \<noteq> frame_key b" for i
      by (simp add: first_use_def keys_delete)
    then show ?thesis
      unfolding eq Cons.IH [OF wfs, of ?m'] ex
      using True first_use_delete [of b m bs]
      by (auto simp: first_use_0 AList.delete_conv')
  next
    case False
    have fp: "find_pending m (getLines b) = None"
      using False find_pending_wf [OF wf, of m] by simp
    have eq: "snd (postProcessSetFrames m (b # bs)) = snd (postProcessSetFrames m bs)"
      using fp by (simp split: prod.splits)
    show ?thesis
      unfolding eq Cons.IH [OF wfs, of m] ex
      using False first_use_skip [OF False, of bs]
      by (auto simp: first_use_0)
  qed
qed

lemma first_use_unique:
  assumes "first_use m bs i" "first_use m bs j" "frame_key (bs ! i) = frame_key (bs ! j)"
  shows "i = j"
proof (rule ccontr)
  assume "i \<noteq> j"
  then consider "i < j" | "j < i" by linarith
  then show False
    using assms unfolding first_use_def by cases metis+
qed

section \<open>The state after the loop\<close>

lemma parseLoop_allFrames:
  "parseLoop opts es this = Inr this' \<Longrightarrow>
   map_of (this_allFrames this') k =
     (if k = ''__proto__'' then map_of (this_allFrames this) k
      else case filter (\<lambda>x. sets_frame x \<and> toString (frameId x) = k) es of
             [] \<Rightarrow> map_of (this_allFrames this) k
           | x # xs \<Rightarrow> Some (frameUrl (last (x # xs))))"
proof (induction es arbitrary: this)
  case Nil
  then show ?case by simp
next
  case (Cons e es)
  then obtain s where s: "parseEvent opts e this = Inr s" and r: "parseLoop opts es s = Inr this'"
    by (auto split: sum.splits)
  from parseEvent_Inr [OF s]
  have "this_allFrames s =
          (if sets_frame e then set_own (toString (frameId e)) (frameUrl e) (this_allFrames this)
           else this_allFrames this)"
    by (simp add: setFrames_simps sets_frame_def)
  with Cons.IH [OF r] show ?case
    by (auto simp: set_own_def AList.update_conv' split: list.splits)
qed

lemma parseLoop_last:
  assumes "parseLoop opts (es @ [e]) this = Inr this'"
  shows "this_frameId this' = (if sets_frame e then frameId e else JNum 0) \<and>
         this_frame this' = (if sets_frame e then ''frame_'' @ toString (frameId e) else ''page'')"
proof -
  from assms obtain s where "parseEvent opts e s = Inr this'"
    by (auto simp: parseLoop_append split: sum.splits)
  from parseEvent_Inr [OF this] show ?thesis
    by (simp add: setFrames_simps sets_frame_def)
qed

lemma parseLoop_frameId:
  assumes "parseLoop opts events fresh = Inr this"
  shows "this_frameId this = frame_after events"
proof (cases events rule: rev_cases)
  case Nil
  with assms show ?thesis by (auto simp: frame_after_def fresh_def)
next
  case (snoc es e)
  with assms parseLoop_last [of opts es e fresh this] show ?thesis
    by (simp add: frame_after_def)
qed

lemma frame_after_defined: "frame_after events \<noteq> JUndefined"
  by (auto simp: frame_after_def sets_frame_def)

lemma hoist_blocks:
  assumes "parseLoop opts events fresh = Inr this"
  shows "this_blocks (hoistNavigation opts this) =
           declaration_blocks opts events @ List.map_filter (event_block opts) events"
  using parseLoop_blocks [OF assms] parseLoop_hasNavigation [OF assms] parseLoop_frameId [OF assms]
  by (auto simp: hoistNavigation_def declaration_blocks_def fresh_def)

lemma map_filter_event_block:
  "b \<in> set (List.map_filter (event_block opts) events) \<Longrightarrow>
   block_wf b \<and> block_frameId b \<noteq> JUndefined"
proof -
  assume "b \<in> set (List.map_filter (event_block opts) events)"
  then obtain e where "event_block opts e = Some b"
    by (auto simp: List.map_filter_def)
  from event_block_wf [OF this] show ?thesis
    by (auto simp: sets_frame_def)
qed

lemma hoist_blocks_wf:
  assumes "parseLoop opts events fresh = Inr this"
      and "b \<in> set (this_blocks (hoistNavigation opts this))"
  shows "block_wf b \<and> block_frameId b \<noteq> JUndefined"
proof -
  from assms have "b \<in> set (declaration_blocks opts events) \<or>
                   b \<in> set (List.map_filter (event_block opts) events)"
    by (simp add: hoist_blocks)
  then show ?thesis
  proof
    assume "b \<in> set (declaration_blocks opts events)"
    then have "b = navigationPromiseBlock (frame_after events)"
      by (simp add: declaration_blocks_def split: if_splits)
    then show ?thesis
      using frame_after_defined [of events]
      by (simp add: navigationPromiseBlock_def new_Block_def addLine_def block_wf_def)
  next
    assume "b \<in> set (List.map_filter (event_block opts) events)"
    then show ?thesis by (rule map_filter_event_block)
  qed
qed

lemma postProcessSetFrames_extends:
  assumes "\<forall>b\<in>set bs. block_wf b"
  shows "list_all2 extends (fst (postProcessSetFrames m bs)) bs"
proof -
  have "extends (declared m b) b" for b
    unfolding extends_def declared_def by (rule exI) (rule refl)
  moreover have "extends b b" for b
    unfolding extends_def by (rule exI [of _ "[]"]) simp
  ultimately show ?thesis
    using postProcessSetFrames_nth [OF assms, of m]
    by (auto simp: list_all2_conv_all_nth)
qed

lemma find_pending_Nil: "find_pending [] ls = None"
  by (induction ls) auto

lemma postProcessSetFrames_Nil: "postProcessSetFrames [] bs = (bs, [])"
  by (induction bs) (auto simp: find_pending_Nil)

lemma extends_frameId: "extends b' b \<Longrightarrow> block_frameId b' = block_frameId b"
  by (auto simp: extends_def)

lemma filter_interleave:
  "blankLine \<notin> set bs \<Longrightarrow>
   filter (\<lambda>b. b \<noteq> blankLine) (blankLine # concat (map (\<lambda>b. [b, blankLine]) bs)) = bs"
  by (induction bs) auto

section \<open>The final block list\<close>

lemma postProcess_frames_stage:
  "this_blocks (postProcess (opts\<lparr>blankLinesBetweenBlocks := False\<rparr>) this) =
     fst (postProcessSetFrames (this_allFrames this) (this_blocks this))"
  by (auto simp: postProcess_def postProcessSetFrames_Nil split: prod.splits)

lemma postProcess_blocks:
  "this_blocks (postProcess opts this) =
     (let bs = fst (postProcessSetFrames (this_allFrames this) (this_blocks this))
      in if blankLinesBetweenBlocks opts \<and> bs \<noteq> []
         then blankLine # concat (map (\<lambda>b. [b, blankLine]) bs) else bs)"
  by (auto simp: postProcess_def postProcessSetFrames_Nil postProcessAddBlankLines_eq Let_def
      split: prod.splits)

lemma blankLine_frameId: "block_frameId blankLine = JUndefined"
  by (simp add: blankLine_def new_Block_def addLine_def)

lemma postProcess_structure:
  assumes "\<forall>b\<in>set (this_blocks this). block_wf b \<and> block_frameId b \<noteq> JUndefined"
  shows "filter (\<lambda>b. b \<noteq> blankLine) (this_blocks (postProcess opts this)) =
           fst (postProcessSetFrames (this_allFrames this) (this_blocks this))"
proof -
  let ?bs = "fst (postProcessSetFrames (this_allFrames this) (this_blocks this))"
  from assms have "list_all2 extends ?bs (this_blocks this)"
    by (intro postProcessSetFrames_extends) simp
  then have "\<forall>b'\<in>set ?bs. \<exists>b\<in>set (this_blocks this). extends b' b"
    by (metis in_set_conv_nth list_all2_conv_all_nth nth_mem)
  with assms have "\<forall>b'\<in>set ?bs. block_frameId b' \<noteq> JUndefined"
    by (metis extends_frameId)
  then have nb: "blankLine \<notin> set ?bs"
    using blankLine_frameId by blast
  then have "filter (\<lambda>b. b \<noteq> blankLine) ?bs = ?bs"
    by (auto simp: filter_id_conv)
  with nb show ?thesis
    by (simp add: postProcess_blocks Let_def filter_interleave del: filter.simps)
qed


lemma hoist_allFrames: "this_allFrames (hoistNavigation opts this) = this_allFrames this"
  by (simp add: hoistNavigation_def)


lemma length_map_filter_event_block:
  assumes "\<forall>e\<in>set events. \<not> raises e"
  shows "length (List.map_filter (event_block opts) events) = length (filter returns_block events)"
  using assms
proof (induction events)
  case Nil
  then show ?case by (simp add: List.map_filter_simps)
next
  case (Cons e es)
  then have "\<not> raises e" by simp
  from event_block_Some [OF this, of opts] Cons show ?case
    by (auto simp: List.map_filter_simps split: option.splits)
qed

lemmas eval_defs =
  generate_def parseEvents_def parseEvent_def dispatch_def setFrames_def set_own_def handler_defs
  hoistNavigation_def postProcess_def postProcessAddBlankLines_eq blankLine_def render_def
  getLines_def getHeader_def getFooter_def importPuppeteer_def wrappedHeader_def
  wrappedFooter_def header_def footer_def defaults_def fresh_def navigationPromiseBlock_def
  frames_line_def declaration_line_def event_of_def Let_def

lemma interleave_length: "length (x # concat (map (\<lambda>b. [b, x]) bs)) = 2 * length bs + 1"
  by (induction bs) auto

lemma interleave_nth:
  "i < length bs \<Longrightarrow>
   (x # concat (map (\<lambda>b. [b, x]) bs)) ! (2 * i) = x \<and>
   (x # concat (map (\<lambda>b. [b, x]) bs)) ! (2 * i + 1) = bs ! i"
proof (induction bs arbitrary: i)
  case Nil
  then show ?case by simp
next
  case (Cons b bs)
  show ?case
  proof (cases i)
    case 0
    then show ?thesis by simp
  next
    case (Suc j)
    with Cons.prems have "j < length bs" by simp
    from Cons.IH [OF this] Suc show ?thesis by simp
  qed
qed

lemma interleave_last: "(x # concat (map (\<lambda>b. [b, x]) bs)) ! (2 * length bs) = x"
  by (induction bs) auto

lemma parseLoop_total:
  assumes "\<forall>e\<in>set events. \<not> raises e"
  shows "\<exists>this'. parseLoop opts events this = Inr this'"
proof (cases "parseLoop opts events this")
  case (Inl err)
  with parseLoop_Inl [of opts events this err] assms show ?thesis by simp
next
  case (Inr s)
  then show ?thesis by simp
qed

lemma skipped_no_block:
  assumes "unrecognized e \<or> guard_fails e"
  shows "\<exists>this'. parseEvent opts e this = Inr this' \<and> this_blocks this' = this_blocks this"
  using assms
  by (auto simp: unrecognized_def guard_fails_def parseEvent_def dispatch_def setFrames_def)



lemma first_use_exists:
  "j < length bs \<Longrightarrow> references (bs ! j) \<Longrightarrow> frame_key (bs ! j) \<in> fst ` set m \<Longrightarrow>
   \<exists>i\<le>j. first_use m bs i \<and> frame_key (bs ! i) = frame_key (bs ! j)"
proof (induction j rule: less_induct)
  case (less j)
  show ?case
  proof (cases "\<exists>j'<j. references (bs ! j') \<and> frame_key (bs ! j') = frame_key (bs ! j)")
    case True
    then obtain j' where j': "j' < j" "references (bs ! j')"
      "frame_key (bs ! j') = frame_key (bs ! j)" by blast
    with less.prems have "j' < length bs" "frame_key (bs ! j') \<in> fst ` set m" by simp_all
    from less.IH [OF j'(1) this(1) j'(2) this(2)]
    obtain i where "i \<le> j'" "first_use m bs i" "frame_key (bs ! i) = frame_key (bs ! j')"
      by blast
    with j' have "i \<le> j \<and> first_use m bs i \<and> frame_key (bs ! i) = frame_key (bs ! j)"
      by simp
    then show ?thesis by blast
  next
    case False
    with less.prems have "first_use m bs j"
      unfolding first_use_def by blast
    then show ?thesis by blast
  qed
qed

lemma declared_lines:
  "map line_value (block_lines (declared m b)) =
     [''let frames = await page.frames()'',
      ''const frame_'' @ toString (block_frameId b) @ '' = frames.find(f => f.url() === '' @ [sq] @
      toString (case map_of m (toString (block_frameId b)) of None \<Rightarrow> JUndefined | Some u \<Rightarrow> u) @
      [sq] @ '')''] @
     map line_value (block_lines b)"
  by (simp add: declared_def frames_line_def declaration_line_def raw_line_def)

lemma event_block_keydown:
  "action e = JStr ''keydown'' \<Longrightarrow>
   event_block opts e =
     (if keyCode e = JNum 9
      then Some (handleComments
                   (handleKeyDown (setFrames (frameId e) (frameUrl e) fresh)
                      (selector e) (evalue e) (keyCode e))
                   (comments e))
      else None)"
  by (simp add: event_block_def dispatch_def)

lemma map_filter_append:
  "List.map_filter f (xs @ ys) = List.map_filter f xs @ List.map_filter f ys"
  by (simp add: List.map_filter_def)

section \<open>Properties of the generator\<close>

text \<open>
  C1. The frame pass of \<open>_postProcess\<close> goes through the blocks in list order. A block
  is a first use when it has a line, its \<open>frameId\<close> is truthy, the key of that
  \<open>frameId\<close> is in the frame-URL map, and no earlier block with a line and a truthy
  \<open>frameId\<close> has the same key. Each first use gets two lines in front: the fetch of the
  page's frame list, then the lookup of \<open>frame_<id>\<close> by URL equality. Every other block is
  left as it is. A key of the map that some block with a line carries is thus declared
  once, at the first such block, and the pass removes from the map exactly the keys it
  declared. For four clicks from the frames 0, 3, 3 and 5 the
  second and the fourth block get a declaration pair, the first and the third none.
\<close>

theorem frame_declaration_hoisting:
  "(parseLoop opts events fresh = Inr this \<longrightarrow>
      (let h = hoistNavigation opts this; bs = this_blocks h; m = this_allFrames h;
           r = postProcessSetFrames m bs
       in this_blocks (postProcess (opts\<lparr>blankLinesBetweenBlocks := False\<rparr>) h) = fst r
          \<and> length (fst r) = length bs
          \<and> (\<forall>i<length bs. fst r ! i = (if first_use m bs i then declared m (bs ! i) else bs ! i))
          \<and> (\<forall>j<length bs. references (bs ! j) \<and> frame_key (bs ! j) \<in> fst ` set m \<longrightarrow>
                 (\<exists>i\<le>j. first_use m bs i \<and> frame_key (bs ! i) = frame_key (bs ! j)))
          \<and> (\<forall>i j. first_use m bs i \<and> first_use m bs j \<and>
                    frame_key (bs ! i) = frame_key (bs ! j) \<longrightarrow> i = j)
          \<and> (\<forall>k. map_of (snd r) k =
                 (if \<exists>i. first_use m bs i \<and> frame_key (bs ! i) = k then None else map_of m k))))
   \<and> map line_value (block_lines (declared m b)) =
       [''let frames = await page.frames()'',
        ''const frame_'' @ toString (block_frameId b) @ '' = frames.find(f => f.url() === '' @ [sq] @
        toString (case map_of m (toString (block_frameId b)) of None \<Rightarrow> JUndefined | Some u \<Rightarrow> u) @
        [sq] @ '')''] @
       map line_value (block_lines b)
   \<and> (case parseLoop defaults events_0_3_3_5 fresh of
         Inl err \<Rightarrow> []
       | Inr this \<Rightarrow>
           map (map line_value \<circ> block_lines)
             (this_blocks (postProcess (defaults\<lparr>blankLinesBetweenBlocks := False\<rparr>)
                (hoistNavigation defaults this)))) =
       [[''await page.waitForSelector('' @ [sq] @ ''#a'' @ [sq] @ '')'',
         ''await page.click('' @ [sq] @ ''#a'' @ [sq] @ '')''],
        [''let frames = await page.frames()'',
         ''const frame_3 = frames.find(f => f.url() === '' @ [sq] @ ''https://three.example/'' @ [sq] @ '')'',
         ''await frame_3.waitForSelector('' @ [sq] @ ''#b'' @ [sq] @ '')'',
         ''await frame_3.click('' @ [sq] @ ''#b'' @ [sq] @ '')''],
        [''await frame_3.waitForSelector('' @ [sq] @ ''#c'' @ [sq] @ '')'',
         ''await frame_3.click('' @ [sq] @ ''#c'' @ [sq] @ '')''],
        [''let frames = await page.frames()'',
         ''const frame_5 = frames.find(f => f.url() === '' @ [sq] @ ''https://five.example/'' @ [sq] @ '')'',
         ''await frame_5.waitForSelector('' @ [sq] @ ''#d'' @ [sq] @ '')'',
         ''await frame_5.click('' @ [sq] @ ''#d'' @ [sq] @ '')'']]"
proof (intro conjI impI)
  assume l: "parseLoop opts events fresh = Inr this"
  let ?h = "hoistNavigation opts this"
  have wf: "\<forall>b\<in>set (this_blocks ?h). block_wf b"
    using hoist_blocks_wf [OF l] by blast
  show "let h = hoistNavigation opts this; bs = this_blocks h; m = this_allFrames h;
           r = postProcessSetFrames m bs
       in this_blocks (postProcess (opts\<lparr>blankLinesBetweenBlocks := False\<rparr>) h) = fst r
          \<and> length (fst r) = length bs
          \<and> (\<forall>i<length bs. fst r ! i = (if first_use m bs i then declared m (bs ! i) else bs ! i))
          \<and> (\<forall>j<length bs. references (bs ! j) \<and> frame_key (bs ! j) \<in> fst ` set m \<longrightarrow>
                 (\<exists>i\<le>j. first_use m bs i \<and> frame_key (bs ! i) = frame_key (bs ! j)))
          \<and> (\<forall>i j. first_use m bs i \<and> first_use m bs j \<and>
                    frame_key (bs ! i) = frame_key (bs ! j) \<longrightarrow> i = j)
          \<and> (\<forall>k. map_of (snd r) k =
                 (if \<exists>i. first_use m bs i \<and> frame_key (bs ! i) = k then None else map_of m k))"
    unfolding Let_def
    using postProcess_frames_stage [of opts ?h]
      postProcessSetFrames_nth [OF wf, of "this_allFrames ?h"]
      postProcessSetFrames_pending [OF wf, of "this_allFrames ?h"]
      first_use_unique [of "this_allFrames ?h" "this_blocks ?h"]
      first_use_exists [of _ "this_blocks ?h" "this_allFrames ?h"]
    by blast
next
  show "map line_value (block_lines (declared m b)) =
       [''let frames = await page.frames()'',
        ''const frame_'' @ toString (block_frameId b) @ '' = frames.find(f => f.url() === '' @ [sq] @
        toString (case map_of m (toString (block_frameId b)) of None \<Rightarrow> JUndefined | Some u \<Rightarrow> u) @
        [sq] @ '')''] @
       map line_value (block_lines b)"
    by (rule declared_lines)
next
  show "(case parseLoop defaults events_0_3_3_5 fresh of
         Inl err \<Rightarrow> []
       | Inr this \<Rightarrow>
           map (map line_value \<circ> block_lines)
             (this_blocks (postProcess (defaults\<lparr>blankLinesBetweenBlocks := False\<rparr>)
                (hoistNavigation defaults this)))) =
       [[''await page.waitForSelector('' @ [sq] @ ''#a'' @ [sq] @ '')'',
         ''await page.click('' @ [sq] @ ''#a'' @ [sq] @ '')''],
        [''let frames = await page.frames()'',
         ''const frame_3 = frames.find(f => f.url() === '' @ [sq] @ ''https://three.example/'' @ [sq] @ '')'',
         ''await frame_3.waitForSelector('' @ [sq] @ ''#b'' @ [sq] @ '')'',
         ''await frame_3.click('' @ [sq] @ ''#b'' @ [sq] @ '')''],
        [''await frame_3.waitForSelector('' @ [sq] @ ''#c'' @ [sq] @ '')'',
         ''await frame_3.click('' @ [sq] @ ''#c'' @ [sq] @ '')''],
        [''let frames = await page.frames()'',
         ''const frame_5 = frames.find(f => f.url() === '' @ [sq] @ ''https://five.example/'' @ [sq] @ '')'',
         ''await frame_5.waitForSelector('' @ [sq] @ ''#d'' @ [sq] @ '')'',
         ''await frame_5.click('' @ [sq] @ ''#d'' @ [sq] @ '')'']]"
    by (simp add: events_0_3_3_5_def eval_defs digits.simps digit_char_def)
qed

theorem frame_declaration_hoisting_witness:
  "(\<exists>this. parseLoop defaults events_0_3_3_5 fresh = Inr this \<and>
      length (fst (postProcessSetFrames (this_allFrames (hoistNavigation defaults this))
                     (this_blocks (hoistNavigation defaults this)))) = 4 \<and>
      this_blocks (postProcess (defaults\<lparr>blankLinesBetweenBlocks := False\<rparr>)
                     (hoistNavigation defaults this)) =
        fst (postProcessSetFrames (this_allFrames (hoistNavigation defaults this))
               (this_blocks (hoistNavigation defaults this))))"
proof -
  have "\<exists>this. parseLoop defaults events_0_3_3_5 fresh = Inr this"
    by (rule parseLoop_total) (simp add: raises_def event_of_def events_0_3_3_5_def)
  then obtain this where p: "parseLoop defaults events_0_3_3_5 fresh = Inr this"
    by blast
  let ?h = "hoistNavigation defaults this"
  from frame_declaration_hoisting [of defaults events_0_3_3_5 this] p
  have len: "length (fst (postProcessSetFrames (this_allFrames ?h) (this_blocks ?h))) =
               length (this_blocks ?h)"
    and st: "this_blocks (postProcess (defaults\<lparr>blankLinesBetweenBlocks := False\<rparr>) ?h) =
               fst (postProcessSetFrames (this_allFrames ?h) (this_blocks ?h))"
    unfolding Let_def by blast+
  have "length (this_blocks ?h) = 4"
    unfolding hoist_blocks [OF p]
    by (simp add: declaration_blocks_def List.map_filter_simps event_block_def dispatch_def
        events_0_3_3_5_def event_of_def)
  with len st p show ?thesis
    by (intro exI [of _ this]) simp
qed

text \<open>
  C2. When the loop over the events has returned, some event was a \<open>navigation*\<close> and
  \<open>waitForNavigation\<close> is on, the block list becomes the declaration block of the
  navigation promise followed by the blocks of the events: one block, at position 0.
  After post-processing it is still the first block that is not an inserted blank one,
  its declaration is the last line of that block, and the blocks of the events follow.
  For a click on \<open>#go\<close> followed by a \<open>navigation*\<close> under the default options, the
  declaration line comes before the two lines of the click in the script.
\<close>

theorem navigation_promise_hoist:
  "(parseLoop opts events fresh = Inr this \<and>
    (\<exists>e\<in>set events. action e = JStr ''navigation*'') \<and> waitForNavigation opts \<longrightarrow>
      this_blocks this = List.map_filter (event_block opts) events
      \<and> this_blocks (hoistNavigation opts this) =
          navigationPromiseBlock (this_frameId this) # this_blocks this
      \<and> map line_value (block_lines (navigationPromiseBlock (this_frameId this))) =
          [''const navigationPromise = page.waitForNavigation()'']
      \<and> (\<exists>d rest.
            filter (\<lambda>b. b \<noteq> blankLine)
              (this_blocks (postProcess opts (hoistNavigation opts this))) =
              (navigationPromiseBlock (this_frameId this))
                \<lparr>block_lines := d @ block_lines (navigationPromiseBlock (this_frameId this))\<rparr> # rest
            \<and> list_all2 extends rest (this_blocks this)))
   \<and> generate defaults fresh
        [(event_of ''click'')\<lparr>selector := JStr ''#go''\<rparr>, event_of ''navigation*''] =
      Inr (''const puppeteer = require('' @ [sq] @ ''puppeteer'' @ [sq] @ '');'' @ nl @
           ''(async () => {'' @ nl @
           ''  const browser = await puppeteer.launch()'' @ nl @
           ''  const page = await browser.newPage()'' @ nl @
           ''  '' @ nl @
           ''  const navigationPromise = page.waitForNavigation()'' @ nl @
           ''  '' @ nl @
           ''  await page.waitForSelector('' @ [sq] @ ''#go'' @ [sq] @ '')'' @ nl @
           ''  await page.click('' @ [sq] @ ''#go'' @ [sq] @ '')'' @ nl @
           ''  '' @ nl @
           ''  await navigationPromise'' @ nl @
           ''  '' @ nl @
           ''  await browser.close()'' @ nl @
           ''})()'')"
proof (intro conjI impI)
  assume a: "parseLoop opts events fresh = Inr this \<and>
    (\<exists>e\<in>set events. action e = JStr ''navigation*'') \<and> waitForNavigation opts"
  then have l: "parseLoop opts events fresh = Inr this" by simp
  let ?N = "navigationPromiseBlock (this_frameId this)"
  let ?h = "hoistNavigation opts this"
  show evs: "this_blocks this = List.map_filter (event_block opts) events"
    using parseLoop_blocks [OF l] by (simp add: fresh_def)
  show h: "this_blocks ?h = ?N # this_blocks this"
    using a parseLoop_hasNavigation [OF l] by (simp add: hoistNavigation_def)
  show "map line_value (block_lines ?N) = [''const navigationPromise = page.waitForNavigation()'']"
    by (simp add: navigationPromiseBlock_def new_Block_def addLine_def raw_line_def)
  have wf: "\<forall>b\<in>set (this_blocks ?h). block_wf b \<and> block_frameId b \<noteq> JUndefined"
    using hoist_blocks_wf [OF l] by blast
  then have "list_all2 extends (fst (postProcessSetFrames (this_allFrames ?h) (this_blocks ?h)))
               (this_blocks ?h)"
    by (intro postProcessSetFrames_extends) simp
  then have "list_all2 extends (filter (\<lambda>b. b \<noteq> blankLine) (this_blocks (postProcess opts ?h)))
               (?N # this_blocks this)"
    unfolding postProcess_structure [OF wf] h .
  then obtain N' rest where
    f: "filter (\<lambda>b. b \<noteq> blankLine) (this_blocks (postProcess opts ?h)) = N' # rest"
    and e: "extends N' ?N" and r: "list_all2 extends rest (this_blocks this)"
    by (auto simp: list_all2_Cons2)
  from e obtain d where "N' = ?N\<lparr>block_lines := d @ block_lines ?N\<rparr>"
    by (auto simp: extends_def)
  with f r show "\<exists>d rest.
            filter (\<lambda>b. b \<noteq> blankLine) (this_blocks (postProcess opts ?h)) =
              ?N\<lparr>block_lines := d @ block_lines ?N\<rparr> # rest
            \<and> list_all2 extends rest (this_blocks this)"
    by blast
next
  show "generate defaults fresh
        [(event_of ''click'')\<lparr>selector := JStr ''#go''\<rparr>, event_of ''navigation*''] =
      Inr (''const puppeteer = require('' @ [sq] @ ''puppeteer'' @ [sq] @ '');'' @ nl @
           ''(async () => {'' @ nl @
           ''  const browser = await puppeteer.launch()'' @ nl @
           ''  const page = await browser.newPage()'' @ nl @
           ''  '' @ nl @
           ''  const navigationPromise = page.waitForNavigation()'' @ nl @
           ''  '' @ nl @
           ''  await page.waitForSelector('' @ [sq] @ ''#go'' @ [sq] @ '')'' @ nl @
           ''  await page.click('' @ [sq] @ ''#go'' @ [sq] @ '')'' @ nl @
           ''  '' @ nl @
           ''  await navigationPromise'' @ nl @
           ''  '' @ nl @
           ''  await browser.close()'' @ nl @
           ''})()'')"
    by (simp add: eval_defs)
qed

theorem navigation_promise_hoist_witness:
  "(\<exists>this. parseLoop defaults
        [(event_of ''click'')\<lparr>selector := JStr ''#go''\<rparr>, event_of ''navigation*''] fresh = Inr this \<and>
      map (map line_value \<circ> block_lines) (this_blocks (hoistNavigation defaults this)) =
        [[''const navigationPromise = page.waitForNavigation()''],
         [''await page.waitForSelector('' @ [sq] @ ''#go'' @ [sq] @ '')'',
          ''await page.click('' @ [sq] @ ''#go'' @ [sq] @ '')''],
         [''await navigationPromise'']])"
proof -
  let ?evs = "[(event_of ''click'')\<lparr>selector := JStr ''#go''\<rparr>, event_of ''navigation*'']"
  have "\<exists>this. parseLoop defaults ?evs fresh = Inr this"
    by (rule parseLoop_total) (simp add: raises_def event_of_def)
  then obtain this where p: "parseLoop defaults ?evs fresh = Inr this"
    by blast
  have w: "waitForNavigation defaults"
    by (simp add: defaults_def)
  have n: "\<exists>e\<in>set ?evs. action e = JStr ''navigation*''"
    by (simp add: event_of_def)
  from navigation_promise_hoist [of defaults ?evs this] p w n
  have h: "this_blocks (hoistNavigation defaults this) =
             navigationPromiseBlock (this_frameId this) # this_blocks this"
    and b: "this_blocks this = List.map_filter (event_block defaults) ?evs"
    and d: "map line_value (block_lines (navigationPromiseBlock (this_frameId this))) =
             [''const navigationPromise = page.waitForNavigation()'']"
    by blast+
  have "map (map line_value \<circ> block_lines) (List.map_filter (event_block defaults) ?evs) =
         [[''await page.waitForSelector('' @ [sq] @ ''#go'' @ [sq] @ '')'',
          ''await page.click('' @ [sq] @ ''#go'' @ [sq] @ '')''],
         [''await navigationPromise'']]"
    by (simp add: List.map_filter_simps event_block_def dispatch_def setFrames_def handler_defs
        event_of_def fresh_def defaults_def)
  with h b d p show ?thesis
    by (intro exI [of _ this]) simp
qed




text \<open>
  C4. When every \<open>viewport*\<close> event carries a \<open>value\<close> (anything but \<open>undefined\<close> and
  \<open>null\<close>), \<open>generate\<close> returns a string. An event whose action is none of the seven
  that the switch knows, a \<open>submit\<close> on a tag other than \<open>FORM\<close> and a \<open>keydown\<close> with a
  \<open>keyCode\<close> other than 9 go through the iteration without an error and leave the block
  list as it was.
\<close>

theorem generate_returns_and_skips:
  "((\<forall>e\<in>set events. action e = JStr ''viewport*'' \<longrightarrow>
        evalue e \<noteq> JUndefined \<and> evalue e \<noteq> JNull) \<longrightarrow>
      (\<exists>out. generate opts fresh events = Inr out))
   \<and> (unrecognized e \<or> guard_fails e \<longrightarrow>
        (\<exists>this'. parseEvent opts e this = Inr this' \<and> this_blocks this' = this_blocks this))"
proof (intro conjI impI)
  assume "\<forall>e\<in>set events. action e = JStr ''viewport*'' \<longrightarrow>
        evalue e \<noteq> JUndefined \<and> evalue e \<noteq> JNull"
  then have "\<forall>e\<in>set events. \<not> raises e"
    by (auto simp: raises_def)
  from parseLoop_total [OF this, of opts fresh]
  show "\<exists>out. generate opts fresh events = Inr out"
    by (auto simp: generate_def parseEvents_def Let_def)
next
  assume "unrecognized e \<or> guard_fails e"
  then show "\<exists>this'. parseEvent opts e this = Inr this' \<and> this_blocks this' = this_blocks this"
    by (rule skipped_no_block)
qed

theorem generate_returns_and_skips_witness:
  "(\<exists>out. generate defaults fresh
       [event_of ''scroll'',
        (event_of ''submit'')\<lparr>tagName := JStr ''DIV''\<rparr>,
        (event_of ''keydown'')\<lparr>keyCode := JNum 65\<rparr>,
        (event_of ''viewport*'')\<lparr>evalue := JSize (JNum 800) (JNum 600)\<rparr>] =
       Inr out)
   \<and> unrecognized (event_of ''scroll'')
   \<and> (\<exists>this'. parseEvent defaults (event_of ''scroll'') fresh = Inr this' \<and>
         this_blocks this' = this_blocks fresh)
   \<and> guard_fails ((event_of ''submit'')\<lparr>tagName := JStr ''DIV''\<rparr>)
   \<and> (\<exists>this'. parseEvent defaults ((event_of ''submit'')\<lparr>tagName := JStr ''DIV''\<rparr>) fresh = Inr this' \<and>
         this_blocks this' = this_blocks fresh)"
  using
    generate_returns_and_skips [of
       "[event_of ''scroll'',
        (event_of ''submit'')\<lparr>tagName := JStr ''DIV''\<rparr>,
        (event_of ''keydown'')\<lparr>keyCode := JNum 65\<rparr>,
        (event_of ''viewport*'')\<lparr>evalue := JSize (JNum 800) (JNum 600)\<rparr>]"
       defaults "event_of ''scroll''" fresh]
    generate_returns_and_skips [of "[]" defaults "(event_of ''submit'')\<lparr>tagName := JStr ''DIV''\<rparr>" fresh]
  by (simp add: event_of_def unrecognized_def guard_fails_def)

theorem viewport_without_value_counterexample:
  "generate defaults fresh [event_of ''viewport*''] = Inl TypeError
   \<and> evalue (event_of ''viewport*'') = JUndefined"
  by (simp add: generate_def parseEvents_def parseEvent_def dispatch_def event_of_def)

text \<open>
  C5. Two instances constructed one after the other: the first with
  \<open>{wrapAsync: false}\<close>, the second with the empty object. The second instance's script is
  the unwrapped one, where an instance built alone from the empty object gives the wrapped
  one: the constructor writes the caller's options into the module-level \<open>defaults\<close>,
  which every later instance reads.
\<close>

theorem second_instance_inherits_options:
  "(case new_CodeGenerator defaults (no_options\<lparr>g_wrapAsync := Some False\<rparr>) of
      (defaults1, first) \<Rightarrow>
        (case new_CodeGenerator defaults1 no_options of
           (defaults2, second) \<Rightarrow> generate defaults2 second [])) =
     Inr (importPuppeteer @ header @ footer)
   \<and> (case new_CodeGenerator defaults no_options of
         (defaults1, only) \<Rightarrow> generate defaults1 only []) =
     Inr (importPuppeteer @ wrappedHeader @ wrappedFooter)
   \<and> importPuppeteer @ header @ footer \<noteq> importPuppeteer @ wrappedHeader @ wrappedFooter"
  by (simp add: new_CodeGenerator_def fresh_def assign_def no_options_def defaults_def generate_def
      parseEvents_def hoistNavigation_def postProcess_def render_def getHeader_def getFooter_def
      header_def wrappedHeader_def footer_def wrappedFooter_def)

text \<open>
  C6. With \<open>blankLinesBetweenBlocks\<close> on and at least one block, \<open>_postProcess\<close> turns the
  \<open>n\<close> blocks that the frame pass leaves into \<open>2n + 1\<close> blocks: a blank block (one line,
  the empty string) at every even position and the original blocks, in order, at the odd
  positions, so that a blank block stands before the first, between every two neighbours
  and after the last. With the option off, or with no block, the list is left as it is.
\<close>

theorem blank_line_insertion:
  "this_blocks (postProcess opts this) =
     (if blankLinesBetweenBlocks opts \<and>
         fst (postProcessSetFrames (this_allFrames this) (this_blocks this)) \<noteq> []
      then blankLine #
           concat (map (\<lambda>b. [b, blankLine])
             (fst (postProcessSetFrames (this_allFrames this) (this_blocks this))))
      else fst (postProcessSetFrames (this_allFrames this) (this_blocks this)))
   \<and> map line_value (block_lines blankLine) = [[]]
   \<and> (blankLinesBetweenBlocks opts \<and>
        fst (postProcessSetFrames (this_allFrames this) (this_blocks this)) \<noteq> [] \<longrightarrow>
        length (this_blocks (postProcess opts this)) =
          2 * length (fst (postProcessSetFrames (this_allFrames this) (this_blocks this))) + 1 \<and>
        (\<forall>i<length (fst (postProcessSetFrames (this_allFrames this) (this_blocks this))).
           this_blocks (postProcess opts this) ! (2 * i) = blankLine \<and>
           this_blocks (postProcess opts this) ! (2 * i + 1) =
             fst (postProcessSetFrames (this_allFrames this) (this_blocks this)) ! i) \<and>
        this_blocks (postProcess opts this) !
          (2 * length (fst (postProcessSetFrames (this_allFrames this) (this_blocks this)))) =
          blankLine)"
proof -
  let ?bs = "fst (postProcessSetFrames (this_allFrames this) (this_blocks this))"
  have eq: "this_blocks (postProcess opts this) =
     (if blankLinesBetweenBlocks opts \<and> ?bs \<noteq> []
      then blankLine # concat (map (\<lambda>b. [b, blankLine]) ?bs) else ?bs)"
    by (simp add: postProcess_blocks Let_def)
  have bl: "map line_value (block_lines blankLine) = [[]]"
    by (simp add: blankLine_def new_Block_def addLine_def raw_line_def)
  have "blankLinesBetweenBlocks opts \<and> ?bs \<noteq> [] \<longrightarrow>
        length (this_blocks (postProcess opts this)) = 2 * length ?bs + 1 \<and>
        (\<forall>i<length ?bs.
           this_blocks (postProcess opts this) ! (2 * i) = blankLine \<and>
           this_blocks (postProcess opts this) ! (2 * i + 1) = ?bs ! i) \<and>
        this_blocks (postProcess opts this) ! (2 * length ?bs) = blankLine"
  proof
    assume "blankLinesBetweenBlocks opts \<and> ?bs \<noteq> []"
    with eq have eq': "this_blocks (postProcess opts this) =
        blankLine # concat (map (\<lambda>b. [b, blankLine]) ?bs)"
      by simp
    show "length (this_blocks (postProcess opts this)) = 2 * length ?bs + 1 \<and>
        (\<forall>i<length ?bs.
           this_blocks (postProcess opts this) ! (2 * i) = blankLine \<and>
           this_blocks (postProcess opts this) ! (2 * i + 1) = ?bs ! i) \<and>
        this_blocks (postProcess opts this) ! (2 * length ?bs) = blankLine"
      unfolding eq'
      using interleave_length [of blankLine ?bs] interleave_nth [of _ ?bs blankLine]
        interleave_last [of blankLine ?bs]
      by blast
  qed
  with eq bl show ?thesis by blast
qed

theorem blank_line_insertion_witness:
  "this_blocks (postProcess defaults
      (fresh\<lparr>this_blocks := [navigationPromiseBlock (JNum 0), handleGoto fresh (JStr ''u'')]\<rparr>)) =
     [blankLine, navigationPromiseBlock (JNum 0), blankLine, handleGoto fresh (JStr ''u''), blankLine]
   \<and> this_blocks (postProcess (defaults\<lparr>blankLinesBetweenBlocks := False\<rparr>)
      (fresh\<lparr>this_blocks := [navigationPromiseBlock (JNum 0), handleGoto fresh (JStr ''u'')]\<rparr>)) =
     [navigationPromiseBlock (JNum 0), handleGoto fresh (JStr ''u'')]
   \<and> this_blocks (postProcess defaults fresh) = []"
  using blank_line_insertion [of defaults
      "fresh\<lparr>this_blocks := [navigationPromiseBlock (JNum 0), handleGoto fresh (JStr ''u'')]\<rparr>"]
    blank_line_insertion [of "defaults\<lparr>blankLinesBetweenBlocks := False\<rparr>"
      "fresh\<lparr>this_blocks := [navigationPromiseBlock (JNum 0), handleGoto fresh (JStr ''u'')]\<rparr>"]
    blank_line_insertion [of defaults fresh]
  by (simp add: defaults_def fresh_def find_pending_Nil postProcessSetFrames_Nil)



text \<open>
  C8. After an event is processed, the current frame variable is \<open>frame_<frameId>\<close> and
  the current frame id is the event's \<open>frameId\<close> when that is truthy and not 0;
  otherwise they are \<open>page\<close> and 0. The frame-URL map associates the key of each such
  \<open>frameId\<close> with the \<open>frameUrl\<close> of the last event so far that carried it (every event
  overwrites the entry of its frame), and holds no other key (nor the key \<open>__proto__\<close>,
  which no assignment creates).
\<close>

theorem frame_tracking_state:
  assumes "parseLoop opts (es @ [e]) fresh = Inr this"
  shows "this_frame this =
           (if truthy (frameId e) \<and> frameId e \<noteq> JNum 0
            then ''frame_'' @ toString (frameId e) else ''page'')
       \<and> this_frameId this =
           (if truthy (frameId e) \<and> frameId e \<noteq> JNum 0 then frameId e else JNum 0)
       \<and> (\<forall>k. map_of (this_allFrames this) k =
            (if k = ''__proto__'' then None
             else case filter (\<lambda>x. truthy (frameId x) \<and> frameId x \<noteq> JNum 0 \<and>
                                   toString (frameId x) = k) (es @ [e]) of
                    [] \<Rightarrow> None
                  | x # xs \<Rightarrow> Some (frameUrl (last (x # xs)))))"
proof -
  have "map_of (this_allFrames this) k =
            (if k = ''__proto__'' then None
             else case filter (\<lambda>x. truthy (frameId x) \<and> frameId x \<noteq> JNum 0 \<and>
                                   toString (frameId x) = k) (es @ [e]) of
                    [] \<Rightarrow> None
                  | x # xs \<Rightarrow> Some (frameUrl (last (x # xs))))" for k
    using parseLoop_allFrames [OF assms, of k]
    unfolding sets_frame_def conj_assoc
    by (simp add: fresh_def del: filter_append filter.simps split: list.splits)
  with parseLoop_last [OF assms] show ?thesis
    by (simp add: sets_frame_def)
qed

theorem frame_tracking_state_witness:
  "(\<exists>this. parseLoop defaults
       ([(event_of ''click'')\<lparr>frameId := JNum 3, frameUrl := JStr ''https://a.example/''\<rparr>] @
        [(event_of ''click'')\<lparr>frameId := JNum 3, frameUrl := JStr ''https://b.example/''\<rparr>])
       fresh = Inr this \<and>
     this_frame this = ''frame_3'' \<and> this_frameId this = JNum 3 \<and>
     map_of (this_allFrames this) ''3'' = Some (JStr ''https://b.example/'') \<and>
     map_of (this_allFrames this) ''5'' = None)"
proof -
  have "\<exists>this. parseLoop defaults
       ([(event_of ''click'')\<lparr>frameId := JNum 3, frameUrl := JStr ''https://a.example/''\<rparr>] @
        [(event_of ''click'')\<lparr>frameId := JNum 3, frameUrl := JStr ''https://b.example/''\<rparr>])
       fresh = Inr this"
    by (rule parseLoop_total) (simp add: raises_def event_of_def)
  then obtain this where p: "parseLoop defaults
       ([(event_of ''click'')\<lparr>frameId := JNum 3, frameUrl := JStr ''https://a.example/''\<rparr>] @
        [(event_of ''click'')\<lparr>frameId := JNum 3, frameUrl := JStr ''https://b.example/''\<rparr>])
       fresh = Inr this" ..
  from frame_tracking_state [OF p] show ?thesis
    using p by (auto simp: event_of_def digits.simps digit_char_def)
qed

theorem frame_url_of_first_event_counterexample:
  "(case parseLoop defaults
       [(event_of ''click'')\<lparr>frameId := JNum 3, frameUrl := JStr ''https://a.example/''\<rparr>,
        (event_of ''click'')\<lparr>frameId := JNum 3, frameUrl := JStr ''https://b.example/''\<rparr>]
       fresh of
      Inl err \<Rightarrow> None
    | Inr this \<Rightarrow> map_of (this_allFrames this) ''3'') = Some (JStr ''https://b.example/'')
   \<and> frameUrl ((event_of ''click'')\<lparr>frameId := JNum 3, frameUrl := JStr ''https://a.example/''\<rparr>) =
       JStr ''https://a.example/''"
  by (simp add: parseEvent_def dispatch_def setFrames_def set_own_def handler_defs event_of_def
      fresh_def defaults_def digits.simps digit_char_def)

text \<open>
  C9. In every event sequence on which the loop returns, a \<open>keydown\<close> event
  contributes a block exactly when its \<open>keyCode\<close> is the number 9: the block list is
  the blocks of the events before it, then its block if the \<open>keyCode\<close> is 9 and nothing
  otherwise, then the blocks of the events after it. The block has one statement, which
  types the event's \<open>value\<close> into the element at the event's \<open>selector\<close> on the
  current frame (under the comment line when the event carries \<open>comments\<close>). A
  \<open>keydown\<close> alone compiles to the header and the footer with nothing between them
  when its \<open>keyCode\<close> is not 9, and to that statement (after the declaration of its
  frame, if it comes from one) when it is 9. A \<open>keydown\<close> with another \<open>keyCode\<close>
  still goes through \<open>_setFrames\<close>: after a click from frame 3 it replaces the URL that
  the declaration of \<open>frame_3\<close> looks up.
\<close>

theorem keydown_adds_block_iff_tab:
  "(parseLoop opts (es @ e # fs) fresh = Inr this \<and> action e = JStr ''keydown'' \<longrightarrow>
      this_blocks this =
        List.map_filter (event_block opts) es @
        (if keyCode e = JNum 9
         then [handleComments
                 (handleKeyDown (setFrames (frameId e) (frameUrl e) fresh)
                    (selector e) (evalue e) (keyCode e))
                 (comments e)]
         else []) @
        List.map_filter (event_block opts) fs)
   \<and> map line_value
        (block_lines
           (handleComments
              (handleKeyDown (setFrames (frameId e) (frameUrl e) fresh)
                 (selector e) (evalue e) (keyCode e))
              (comments e))) =
       (if truthy (comments e) then [''/** '' @ toString (comments e) @ '' */''] else []) @
       [''await '' @
        (if truthy (frameId e) \<and> frameId e \<noteq> JNum 0
         then ''frame_'' @ toString (frameId e) else ''page'') @
        ''.type('' @ [sq] @ toString (selector e) @ [sq] @ '', '' @
        [sq] @ toString (evalue e) @ [sq] @ '')'']
   \<and> (action e = JStr ''keydown'' \<and> keyCode e \<noteq> JNum 9 \<longrightarrow>
        generate opts fresh [e] = Inr (importPuppeteer @ getHeader opts @ getFooter opts))
   \<and> (action e = JStr ''keydown'' \<and> keyCode e = JNum 9 \<longrightarrow>
        generate opts fresh [e] =
          Inr (importPuppeteer @ getHeader opts @
               (if blankLinesBetweenBlocks opts
                then (if wrapAsync opts then ''  '' else []) @ nl else []) @
               concat (map (\<lambda>l. (if wrapAsync opts then ''  '' else []) @ l @ nl)
                 ((if truthy (frameId e) \<and> frameId e \<noteq> JNum 0 \<and>
                      toString (frameId e) \<noteq> ''__proto__''
                   then [''let frames = await page.frames()'',
                         ''const frame_'' @ toString (frameId e) @
                         '' = frames.find(f => f.url() === '' @ [sq] @
                         toString (frameUrl e) @ [sq] @ '')'']
                   else []) @
                  (if truthy (comments e) then [''/** '' @ toString (comments e) @ '' */''] else []) @
                  [''await '' @
                   (if truthy (frameId e) \<and> frameId e \<noteq> JNum 0
                    then ''frame_'' @ toString (frameId e) else ''page'') @
                   ''.type('' @ [sq] @ toString (selector e) @ [sq] @ '', '' @
                   [sq] @ toString (evalue e) @ [sq] @ '')''])) @
               (if blankLinesBetweenBlocks opts
                then (if wrapAsync opts then ''  '' else []) @ nl else []) @
               getFooter opts))"
proof (intro conjI impI)
  assume a: "parseLoop opts (es @ e # fs) fresh = Inr this \<and> action e = JStr ''keydown''"
  then have "this_blocks this = List.map_filter (event_block opts) (es @ e # fs)"
    using parseLoop_blocks [of opts "es @ e # fs" fresh this] by (simp add: fresh_def)
  with a show "this_blocks this =
        List.map_filter (event_block opts) es @
        (if keyCode e = JNum 9
         then [handleComments
                 (handleKeyDown (setFrames (frameId e) (frameUrl e) fresh)
                    (selector e) (evalue e) (keyCode e))
                 (comments e)]
         else []) @
        List.map_filter (event_block opts) fs"
    by (simp add: map_filter_append List.map_filter_simps event_block_keydown)
next
  show "map line_value
        (block_lines
           (handleComments
              (handleKeyDown (setFrames (frameId e) (frameUrl e) fresh)
                 (selector e) (evalue e) (keyCode e))
              (comments e))) =
       (if truthy (comments e) then [''/** '' @ toString (comments e) @ '' */''] else []) @
       [''await '' @
        (if truthy (frameId e) \<and> frameId e \<noteq> JNum 0
         then ''frame_'' @ toString (frameId e) else ''page'') @
        ''.type('' @ [sq] @ toString (selector e) @ [sq] @ '', '' @
        [sq] @ toString (evalue e) @ [sq] @ '')'']"
    by (simp add: handler_defs setFrames_def)
next
  assume "action e = JStr ''keydown'' \<and> keyCode e \<noteq> JNum 9"
  then show "generate opts fresh [e] = Inr (importPuppeteer @ getHeader opts @ getFooter opts)"
    by (simp add: generate_def parseEvents_def parseEvent_def dispatch_def setFrames_def
        set_own_def hoistNavigation_def postProcess_def render_def fresh_def)
next
  assume "action e = JStr ''keydown'' \<and> keyCode e = JNum 9"
  then show "generate opts fresh [e] =
          Inr (importPuppeteer @ getHeader opts @
               (if blankLinesBetweenBlocks opts
                then (if wrapAsync opts then ''  '' else []) @ nl else []) @
               concat (map (\<lambda>l. (if wrapAsync opts then ''  '' else []) @ l @ nl)
                 ((if truthy (frameId e) \<and> frameId e \<noteq> JNum 0 \<and>
                      toString (frameId e) \<noteq> ''__proto__''
                   then [''let frames = await page.frames()'',
                         ''const frame_'' @ toString (frameId e) @
                         '' = frames.find(f => f.url() === '' @ [sq] @
                         toString (frameUrl e) @ [sq] @ '')'']
                   else []) @
                  (if truthy (comments e) then [''/** '' @ toString (comments e) @ '' */''] else []) @
                  [''await '' @
                   (if truthy (frameId e) \<and> frameId e \<noteq> JNum 0
                    then ''frame_'' @ toString (frameId e) else ''page'') @
                   ''.type('' @ [sq] @ toString (selector e) @ [sq] @ '', '' @
                   [sq] @ toString (evalue e) @ [sq] @ '')''])) @
               (if blankLinesBetweenBlocks opts
                then (if wrapAsync opts then ''  '' else []) @ nl else []) @
               getFooter opts)"
    by (simp add: generate_def parseEvents_def parseEvent_def dispatch_def setFrames_def
        set_own_def handler_defs hoistNavigation_def postProcess_def postProcessAddBlankLines_eq
        blankLine_def render_def getLines_def frames_line_def declaration_line_def fresh_def)
qed

theorem keydown_adds_block_iff_tab_witness:
  "(\<exists>this. parseLoop defaults
        ([(event_of ''click'')\<lparr>selector := JStr ''#a''\<rparr>] @
         (event_of ''keydown'')\<lparr>keyCode := JNum 9, selector := JStr ''#q'', evalue := JStr ''abc''\<rparr> #
         [(event_of ''click'')\<lparr>selector := JStr ''#b''\<rparr>]) fresh = Inr this \<and>
      map (map line_value \<circ> block_lines) (this_blocks this) =
        [[''await page.waitForSelector('' @ [sq] @ ''#a'' @ [sq] @ '')'',
          ''await page.click('' @ [sq] @ ''#a'' @ [sq] @ '')''],
         [''await page.type('' @ [sq] @ ''#q'' @ [sq] @ '', '' @ [sq] @ ''abc'' @ [sq] @ '')''],
         [''await page.waitForSelector('' @ [sq] @ ''#b'' @ [sq] @ '')'',
          ''await page.click('' @ [sq] @ ''#b'' @ [sq] @ '')'']])
   \<and> generate defaults fresh [(event_of ''keydown'')\<lparr>keyCode := JNum 13, selector := JStr ''#q''\<rparr>] =
       Inr (importPuppeteer @ wrappedHeader @ wrappedFooter)"
proof
  let ?es = "[(event_of ''click'')\<lparr>selector := JStr ''#a''\<rparr>]"
  let ?e = "(event_of ''keydown'')\<lparr>keyCode := JNum 9, selector := JStr ''#q'', evalue := JStr ''abc''\<rparr>"
  let ?fs = "[(event_of ''click'')\<lparr>selector := JStr ''#b''\<rparr>]"
  have "\<exists>this. parseLoop defaults (?es @ ?e # ?fs) fresh = Inr this"
    by (rule parseLoop_total) (simp add: raises_def event_of_def)
  then obtain this where p: "parseLoop defaults (?es @ ?e # ?fs) fresh = Inr this"
    by blast
  have k: "action ?e = JStr ''keydown''"
    by (simp add: event_of_def)
  have b: "this_blocks this =
        List.map_filter (event_block defaults) ?es @
        (if keyCode ?e = JNum 9
         then [handleComments
                 (handleKeyDown (setFrames (frameId ?e) (frameUrl ?e) fresh)
                    (selector ?e) (evalue ?e) (keyCode ?e))
                 (comments ?e)]
         else []) @
        List.map_filter (event_block defaults) ?fs"
    by (rule keydown_adds_block_iff_tab [of defaults ?es ?e ?fs this,
          THEN conjunct1, THEN mp, OF conjI [OF p k]])
  have r: "map (map line_value \<circ> block_lines) (this_blocks this) =
        [[''await page.waitForSelector('' @ [sq] @ ''#a'' @ [sq] @ '')'',
          ''await page.click('' @ [sq] @ ''#a'' @ [sq] @ '')''],
         [''await page.type('' @ [sq] @ ''#q'' @ [sq] @ '', '' @ [sq] @ ''abc'' @ [sq] @ '')''],
         [''await page.waitForSelector('' @ [sq] @ ''#b'' @ [sq] @ '')'',
          ''await page.click('' @ [sq] @ ''#b'' @ [sq] @ '')'']]"
    unfolding b
    by (simp add: List.map_filter_simps event_block_def dispatch_def setFrames_def handler_defs
        event_of_def fresh_def defaults_def)
  show "\<exists>this. parseLoop defaults (?es @ ?e # ?fs) fresh = Inr this \<and>
      map (map line_value \<circ> block_lines) (this_blocks this) =
        [[''await page.waitForSelector('' @ [sq] @ ''#a'' @ [sq] @ '')'',
          ''await page.click('' @ [sq] @ ''#a'' @ [sq] @ '')''],
         [''await page.type('' @ [sq] @ ''#q'' @ [sq] @ '', '' @ [sq] @ ''abc'' @ [sq] @ '')''],
         [''await page.waitForSelector('' @ [sq] @ ''#b'' @ [sq] @ '')'',
          ''await page.click('' @ [sq] @ ''#b'' @ [sq] @ '')'']]"
    by (rule exI [of _ this], rule conjI, rule p, rule r)
next
  let ?e = "(event_of ''keydown'')\<lparr>keyCode := JNum 13, selector := JStr ''#q''\<rparr>"
  have k: "action ?e = JStr ''keydown'' \<and> keyCode ?e \<noteq> JNum 9"
    by (simp add: event_of_def)
  have "generate defaults fresh [?e] = Inr (importPuppeteer @ getHeader defaults @ getFooter defaults)"
    by (rule keydown_adds_block_iff_tab [of defaults "[]" ?e "[]" fresh,
          THEN conjunct2, THEN conjunct2, THEN conjunct1, THEN mp, OF k])
  then show "generate defaults fresh [?e] = Inr (importPuppeteer @ wrappedHeader @ wrappedFooter)"
    by (simp add: getHeader_def getFooter_def defaults_def)
qed

theorem keydown_changes_script_counterexample:
  "generate defaults fresh
     [(event_of ''click'')\<lparr>selector := JStr ''#a'', frameId := JNum 3,
                            frameUrl := JStr ''https://a.example/''\<rparr>,
      (event_of ''keydown'')\<lparr>keyCode := JNum 13, frameId := JNum 3,
                              frameUrl := JStr ''https://b.example/''\<rparr>] =
     Inr (''const puppeteer = require('' @ [sq] @ ''puppeteer'' @ [sq] @ '');'' @ nl @
          ''(async () => {'' @ nl @
          ''  const browser = await puppeteer.launch()'' @ nl @
          ''  const page = await browser.newPage()'' @ nl @
          ''  '' @ nl @
          ''  let frames = await page.frames()'' @ nl @
          ''  const frame_3 = frames.find(f => f.url() === '' @ [sq] @ ''https://b.example/'' @ [sq] @ '')'' @ nl @
          ''  await frame_3.waitForSelector('' @ [sq] @ ''#a'' @ [sq] @ '')'' @ nl @
          ''  await frame_3.click('' @ [sq] @ ''#a'' @ [sq] @ '')'' @ nl @
          ''  '' @ nl @
          ''  await browser.close()'' @ nl @
          ''})()'')
   \<and> generate defaults fresh
     [(event_of ''click'')\<lparr>selector := JStr ''#a'', frameId := JNum 3,
                            frameUrl := JStr ''https://a.example/''\<rparr>] =
     Inr (''const puppeteer = require('' @ [sq] @ ''puppeteer'' @ [sq] @ '');'' @ nl @
          ''(async () => {'' @ nl @
          ''  const browser = await puppeteer.launch()'' @ nl @
          ''  const page = await browser.newPage()'' @ nl @
          ''  '' @ nl @
          ''  let frames = await page.frames()'' @ nl @
          ''  const frame_3 = frames.find(f => f.url() === '' @ [sq] @ ''https://a.example/'' @ [sq] @ '')'' @ nl @
          ''  await frame_3.waitForSelector('' @ [sq] @ ''#a'' @ [sq] @ '')'' @ nl @
          ''  await frame_3.click('' @ [sq] @ ''#a'' @ [sq] @ '')'' @ nl @
          ''  '' @ nl @
          ''  await browser.close()'' @ nl @
          ''})()'')
   \<and> keyCode ((event_of ''keydown'')\<lparr>keyCode := JNum 13, frameId := JNum 3,
                              frameUrl := JStr ''https://b.example/''\<rparr>) = JNum 13"
  by (simp add: eval_defs digits.simps digit_char_def)



end
